theory Spec2Isabelle
  imports Main
begin

section \<open>Data model\<close>

text \<open>
  The chat application keeps all of its state in a document database with three
  collections: \<open>users\<close>, \<open>chatRooms\<close> and, below every chat room, \<open>messages\<close>.
  Identifiers (user ids, room ids, message ids) are strings; timestamps are opaque
  and ordered, a natural number here.
\<close>

type_synonym user_id = string
type_synonym doc_id = string
type_synonym timestamp = nat

text \<open>
  \<open>ChatRoom.lastMessage\<close>. The room document is written with field paths such as
  \<open>lastMessage.readBy.<uid>\<close>, which create the enclosing maps when they are missing,
  so every component of the snapshot may be absent.
\<close>

record last_message =
  lm_text :: "string option"
  lm_timestamp :: "timestamp option"
  lm_senderId :: "user_id option"
  lm_readBy :: "user_id \<rightharpoonup> bool"

datatype room_type = Private | Group

text \<open>
  \<open>interface ChatRoom\<close>. The optional maps \<open>unreadCount\<close>, \<open>activeUsers\<close> and
  \<open>displayNames\<close> are maps that may be empty; the code reads a missing map as an empty one
  (\<open>chatData.activeUsers || {}\<close>, \<open>chatData.unreadCount?.[userId] || 0\<close>).
  \<open>unreadCount\<close> holds the numbers stored directly under a field name of the map.
  The store allows maps inside the map: \<open>unreadCountNested\<close> holds the numbers that lie
  deeper, each under its path of two or more field names. Only a write through a field
  path whose id contains a dot puts a number there.
\<close>

record chat_room =
  rtype :: room_type
  rname :: "string option"
  participants :: "user_id list"
  lastMessage :: "last_message option"
  createdAt :: timestamp
  groupAdmin :: "user_id option"
  unreadCount :: "user_id \<rightharpoonup> int"
  unreadCountNested :: "string list \<rightharpoonup> int"
  activeUsers :: "user_id \<rightharpoonup> bool"
  displayNames :: "user_id \<rightharpoonup> string"

text \<open>\<open>interface Message\<close> (the id is the key of the document).\<close>

record message =
  m_text :: string
  m_senderId :: user_id
  m_timestamp :: timestamp
  m_readBy :: "user_id \<rightharpoonup> bool"

text \<open>
  A user document. \<open>friends\<close>, \<open>friendRequests.sent\<close> and \<open>friendRequests.received\<close>
  may each be missing from the document; the code reads a missing list as \<open>[]\<close>.
\<close>

record user_profile =
  p_id :: "user_id option"
  email :: "string option"
  username :: "string option"
  qrCode :: "string option"
  lastSeen :: "timestamp option"
  displayName :: "string option"
  photoURL :: "string option"
  status :: "string option"
  friends :: "user_id list option"
  fr_sent :: "user_id list option"
  fr_received :: "user_id list option"

text \<open>
  A collection is the list of its documents in the order a query returns them.
\<close>

type_synonym 'a collection = "(doc_id \<times> 'a) list"

record db =
  chatRooms :: "chat_room collection"
  messages :: "doc_id \<Rightarrow> message collection"
  users :: "user_profile collection"

text \<open>
  The errors the services throw, one constructor for each message. The last four are not
  raised by the services themselves: \<open>NoDocumentToUpdate\<close> is the store rejecting an
  update of a document that does not exist, \<open>QRCodeError\<close> the QR library failing,
  \<open>InvalidArgument\<close> the store's client library rejecting a field name or a field path,
  and \<open>ReferenceError\<close> the language runtime meeting a name that is not declared.
\<close>

datatype error =
    ChatRoomNotFound
  | OnlyGroupAdmin
  | AlreadyInGroup
  | RequiredFieldsMissing
  | NonGroupChat
  | UserNotFound
  | AlreadyFriends
  | FriendRequestAlreadySent
  | FriendRequestNotFound
  | NoDocumentToUpdate
  | QRCodeError
  | InvalidArgument
  | ReferenceError

section \<open>The document store\<close>

text \<open>\<open>getDoc\<close>: the document with that id, if there is one.\<close>

definition getDoc :: "'a collection \<Rightarrow> doc_id \<Rightarrow> 'a option" where
  "getDoc c k = map_of c k"

text \<open>\<open>updateDoc\<close>/\<open>batch.update\<close> of a document that exists: the fields are rewritten in place.\<close>

definition updateDoc :: "doc_id \<Rightarrow> ('a \<Rightarrow> 'a) \<Rightarrow> 'a collection \<Rightarrow> 'a collection" where
  "updateDoc k f c = map (\<lambda>(k', d). if k' = k then (k', f d) else (k', d)) c"

text \<open>\<open>batch.set\<close>: a new document is added, an existing one is replaced.\<close>

definition setDoc :: "doc_id \<Rightarrow> 'a \<Rightarrow> 'a collection \<Rightarrow> 'a collection" where
  "setDoc k d c = (if k \<in> fst ` set c then updateDoc k (\<lambda>_. d) c else c @ [(k, d)])"

text \<open>
  The two numeric field writes of the code: \<open>increment(n)\<close>, which adds to the stored number
  and counts a field that is missing, or not a number, as 0, and a plain number.
\<close>

datatype field_update = Increment int | SetTo int

definition fieldValue :: "field_update \<Rightarrow> int option \<Rightarrow> int" where
  "fieldValue upd old =
     (case upd of
        Increment n \<Rightarrow> (case old of None \<Rightarrow> 0 | Some v \<Rightarrow> v) + n
      | SetTo v \<Rightarrow> v)"

subsection \<open>Field names and field paths\<close>

text \<open>
  The store's client library checks every key of an object it is given to write
  (\<open>set\<close>, \<open>addDoc\<close>, and objects that are values of an update): a field name must not be
  empty and must not match \<open>/^__.*__$/\<close>, where \<open>.\<close> stands for any character but a line
  terminator (of the characters a \<open>char\<close> can hold: line feed and carriage return).
\<close>

definition validFieldName :: "string \<Rightarrow> bool" where
  "validFieldName seg =
     (seg \<noteq> [] \<and>
      \<not> (4 \<le> length seg \<and> take 2 seg = ''__'' \<and> drop (length seg - 2) seg = ''__'' \<and>
         list_all (\<lambda>c. of_char c \<notin> {10, 13 :: nat}) (take (length seg - 4) (drop 2 seg))))"

text \<open>
  The keys of an \<open>update\<close> are not field names but field paths: the library refuses a key
  that contains one of \<open>~ * / [ ]\<close>, splits the key at every dot, refuses an empty part,
  and then checks each part as a field name. \<open>None\<close> stands for the error it throws.
\<close>

definition reservedPathChar :: "char \<Rightarrow> bool" where
  "reservedPathChar c = (c \<in> set ''~*/[]'')"

fun splitDots :: "string \<Rightarrow> string list" where
  "splitDots [] = [[]]"
| "splitDots (c # cs) =
     (if c = CHR ''.'' then [] # splitDots cs
      else (case splitDots cs of [] \<Rightarrow> [[c]] | seg # segs \<Rightarrow> (c # seg) # segs))"

definition fieldPathFromDotSeparatedString :: "string \<Rightarrow> string list option" where
  "fieldPathFromDotSeparatedString path =
     (if list_ex reservedPathChar path then None
      else if list_all validFieldName (splitDots path) then Some (splitDots path)
      else None)"

text \<open>
  \<open>obj[key] = value\<close> on an object, as the list of its properties in insertion order: a
  key that is there keeps its place and gets the new value. (JavaScript lists the keys
  that are array indices before the others; the keys built below all start with
  \<open>unreadCount.\<close>, so none is one.)
\<close>

definition assign :: "string \<Rightarrow> 'v \<Rightarrow> (string \<times> 'v) list \<Rightarrow> (string \<times> 'v) list" where
  "assign k v obj =
     (if k \<in> fst ` set obj then map (\<lambda>(k', v'). if k' = k then (k', v) else (k', v')) obj
      else obj @ [(k, v)])"

text \<open>
  Parsing the keys of the update data, in the order of the object: the first key that is
  not a field path makes the whole call throw.
\<close>

fun parseUpdateData :: "(string \<times> field_update) list \<Rightarrow> (string list \<times> field_update) list option" where
  "parseUpdateData [] = Some []"
| "parseUpdateData ((key, upd) # rest) =
     (case fieldPathFromDotSeparatedString key of
        None \<Rightarrow> None
      | Some path \<Rightarrow> (case parseUpdateData rest of
                       None \<Rightarrow> None
                     | Some writes \<Rightarrow> Some ((path, upd) # writes)))"

text \<open>
  One write below the map \<open>unreadCount\<close>. A write under a single field name replaces what
  is stored under that name, a map included. A write under a longer path creates the maps
  on the way: a number stored at a prefix of the path gives way to a map, and so does
  whatever was stored at the path or below it.
\<close>

definition overlaps :: "string list \<Rightarrow> string list \<Rightarrow> bool" where
  "overlaps p q = (take (length p) q = p \<or> take (length q) p = q)"

fun writeCounter :: "string list \<Rightarrow> field_update \<Rightarrow> chat_room \<Rightarrow> chat_room" where
  "writeCounter [] upd r = r"
| "writeCounter [k] upd r =
     r\<lparr>unreadCount := (unreadCount r)(k \<mapsto> fieldValue upd (unreadCount r k)),
       unreadCountNested := (\<lambda>q. if take 1 q = [k] then None else unreadCountNested r q)\<rparr>"
| "writeCounter (k # k' # rest) upd r =
     r\<lparr>unreadCount := (unreadCount r)(k := None),
       unreadCountNested :=
         (\<lambda>q. if q = k # k' # rest
              then Some (fieldValue upd (unreadCountNested r (k # k' # rest)))
              else if overlaps q (k # k' # rest) then None
              else unreadCountNested r q)\<rparr>"

text \<open>
  The writes of one update, in the order of its keys. The paths the code builds all start
  with the field \<open>unreadCount\<close>.
\<close>

definition writeField :: "string list \<Rightarrow> field_update \<Rightarrow> chat_room \<Rightarrow> chat_room" where
  "writeField path upd r =
     (case path of
        [] \<Rightarrow> r
      | f # below \<Rightarrow> if f = ''unreadCount'' then writeCounter below upd r else r)"

definition applyFieldWrites :: "(string list \<times> field_update) list \<Rightarrow> chat_room \<Rightarrow> chat_room" where
  "applyFieldWrites writes r = fold (\<lambda>(path, upd) r'. writeField path upd r') writes r"

section \<open>Message Ledger: sendMessage\<close>

text \<open>
  \<open>String.prototype.trim\<close> on the characters a \<open>char\<close> can hold: tab, line feed,
  vertical tab, form feed, carriage return, space and no-break space.
\<close>

definition isWhiteSpace :: "char \<Rightarrow> bool" where
  "isWhiteSpace c = (of_char c \<in> {9, 10, 11, 12, 13, 32, 160 :: nat})"

definition trim :: "string \<Rightarrow> string" where
  "trim s = rev (dropWhile isWhiteSpace (rev (dropWhile isWhiteSpace s)))"

text \<open>
  \<open>sendMessage\<close> of the first listing of \<open>chat.service.ts\<close> (no presence awareness).
  \<open>messageId\<close> is the id the store generates for the new message document and
  \<open>now\<close> the server timestamp of the commit. \<open>batch.set\<close> checks the keys of \<open>readBy\<close>, which
  are the participant ids, as field names; \<open>batch.update\<close> parses the keys
  \<open>unreadCount.${participantId}\<close> as field paths; either throws before anything is
  written. The message and the room update are one batch.
\<close>

definition sendMessage ::
  "db \<Rightarrow> doc_id \<Rightarrow> timestamp \<Rightarrow> doc_id \<Rightarrow> user_id \<Rightarrow> string \<Rightarrow> error + (doc_id \<times> db)" where
  "sendMessage s messageId now roomId sender txt =
     (case getDoc (chatRooms s) roomId of
        None \<Rightarrow> Inl ChatRoomNotFound
      | Some room \<Rightarrow>
          let readBy = fold (\<lambda>p m. m(p \<mapsto> (p = sender))) (participants room) Map.empty;
              msg = \<lparr>m_text = txt, m_senderId = sender, m_timestamp = now, m_readBy = readBy\<rparr>;
              snapshot = \<lparr>lm_text = Some txt, lm_timestamp = Some now,
                          lm_senderId = Some sender, lm_readBy = readBy\<rparr>;
              updateData = fold (\<lambda>p u. if p \<noteq> sender
                                         then assign (''unreadCount.'' @ p) (Increment 1) u else u)
                             (participants room) []
          in if \<not> list_all validFieldName (participants room) then Inl InvalidArgument
             else case parseUpdateData updateData of
                None \<Rightarrow> Inl InvalidArgument
              | Some writes \<Rightarrow>
                  Inr (messageId,
                       s\<lparr>messages := (messages s)(roomId := setDoc messageId msg (messages s roomId)),
                         chatRooms := updateDoc roomId
                           (\<lambda>r. applyFieldWrites writes (r\<lparr>lastMessage := Some snapshot\<rparr>))
                           (chatRooms s)\<rparr>))"

text \<open>
  \<open>sendMessage\<close> of the second listing (presence aware): the arguments are validated first,
  the text is trimmed, and a participant who is flagged active in the room has read the
  message at once. Here every participant, the sender included, gets a key
  \<open>unreadCount.${participantId}\<close>.
\<close>

definition sendMessage_presence ::
  "db \<Rightarrow> doc_id \<Rightarrow> timestamp \<Rightarrow> doc_id \<Rightarrow> user_id \<Rightarrow> string \<Rightarrow> error + ((doc_id \<times> message) \<times> db)" where
  "sendMessage_presence s messageId now chatId sender txt =
     (if chatId = [] \<or> sender = [] \<or> trim txt = [] then Inl RequiredFieldsMissing
      else case getDoc (chatRooms s) chatId of
        None \<Rightarrow> Inl ChatRoomNotFound
      | Some chatData \<Rightarrow>
          let active = activeUsers chatData;
              readBy = fold (\<lambda>p m. m(p \<mapsto> (active p = Some True \<or> p = sender)))
                         (participants chatData) Map.empty;
              unreadCountUpdate =
                fold (\<lambda>p u. if \<not> (active p = Some True \<or> p = sender)
                             then assign (''unreadCount.'' @ p) (Increment 1) u
                             else assign (''unreadCount.'' @ p) (SetTo 0) u)
                     (participants chatData) [];
              msg = \<lparr>m_text = trim txt, m_senderId = sender, m_timestamp = now, m_readBy = readBy\<rparr>;
              snapshot = \<lparr>lm_text = Some (m_text msg), lm_timestamp = Some (m_timestamp msg),
                          lm_senderId = Some (m_senderId msg), lm_readBy = m_readBy msg\<rparr>
          in if \<not> list_all validFieldName (participants chatData) then Inl InvalidArgument
             else case parseUpdateData unreadCountUpdate of
                None \<Rightarrow> Inl InvalidArgument
              | Some writes \<Rightarrow>
                  Inr ((messageId, msg),
                       s\<lparr>messages := (messages s)(chatId := setDoc messageId msg (messages s chatId)),
                         chatRooms := updateDoc chatId
                           (\<lambda>r. applyFieldWrites writes (r\<lparr>lastMessage := Some snapshot\<rparr>))
                           (chatRooms s)\<rparr>))"

text \<open>
  An id is plain when it is a field name and has no dot and none of the characters a
  field path refuses; for a plain id the key \<open>unreadCount.${id}\<close> is the path of the entry
  \<open>unreadCount[id]\<close>. The ids the identity provider generates are plain, but
  \<open>createPrivateChat\<close> is also called with the text of a scanned QR code as the second id
  (\<open>chat/page.tsx\<close>), so a participant id can be any string.
\<close>

definition plainId :: "user_id \<Rightarrow> bool" where
  "plainId p = (validFieldName p \<and> \<not> list_ex (\<lambda>c. c = CHR ''.'' \<or> reservedPathChar c) p)"

section \<open>Message Ledger: markMessagesAsRead\<close>

text \<open>The field write \<open>readBy.<uid> = true\<close> on a message document.\<close>

definition markRead :: "user_id \<Rightarrow> message \<Rightarrow> message" where
  "markRead userId m = m\<lparr>m_readBy := (m_readBy m)(userId \<mapsto> True)\<rparr>"

text \<open>
  The field write \<open>lastMessage.readBy.<uid> = true\<close> on a room document; the enclosing
  maps are created when the room has no \<open>lastMessage\<close>.
\<close>

definition setLastMessageReadBy :: "user_id \<Rightarrow> last_message option \<Rightarrow> last_message option" where
  "setLastMessageReadBy userId lm =
     (case lm of
        None \<Rightarrow> Some \<lparr>lm_text = None, lm_timestamp = None, lm_senderId = None,
                       lm_readBy = [userId \<mapsto> True]\<rparr>
      | Some l \<Rightarrow> Some (l\<lparr>lm_readBy := (lm_readBy l)(userId \<mapsto> True)\<rparr>))"

text \<open>
  The room update of \<open>markMessagesAsRead\<close>: \<open>unreadCount.<uid> = 0\<close> and
  \<open>lastMessage.readBy.<uid> = true\<close>; the second listing also writes
  \<open>activeUsers.<uid> = true\<close>.
\<close>

definition resetUnread :: "user_id \<Rightarrow> chat_room \<Rightarrow> chat_room" where
  "resetUnread userId r =
     r\<lparr>unreadCount := (unreadCount r)(userId \<mapsto> 0),
       lastMessage := setLastMessageReadBy userId (lastMessage r)\<rparr>"

definition resetUnread_presence :: "user_id \<Rightarrow> chat_room \<Rightarrow> chat_room" where
  "resetUnread_presence userId r =
     r\<lparr>unreadCount := (unreadCount r)(userId \<mapsto> 0),
       lastMessage := setLastMessageReadBy userId (lastMessage r),
       activeUsers := (activeUsers r)(userId \<mapsto> True)\<rparr>"

text \<open>
  \<open>markMessagesAsRead\<close> of the first listing. The query is
  \<open>where(`readBy.${userId}`, '==', false)\<close>: a message matches when it has an entry for the
  user and the entry is \<open>false\<close>. Every document of the snapshot is updated through its
  reference, then the room; the batch commits as a whole, and fails as a whole when the
  room document does not exist.
\<close>

definition markMessagesAsRead :: "db \<Rightarrow> doc_id \<Rightarrow> user_id \<Rightarrow> error + db" where
  "markMessagesAsRead s roomId userId =
     (let snapshot = filter (\<lambda>(mid, m). m_readBy m userId = Some False) (messages s roomId);
          marked = fold (\<lambda>(mid, m) c. updateDoc mid (markRead userId) c) snapshot (messages s roomId)
      in case getDoc (chatRooms s) roomId of
           None \<Rightarrow> Inl NoDocumentToUpdate
         | Some room \<Rightarrow>
             Inr (s\<lparr>messages := (messages s)(roomId := marked),
                    chatRooms := updateDoc roomId (resetUnread userId) (chatRooms s)\<rparr>))"

text \<open>
  \<open>markMessagesAsRead\<close> of the second listing. The query is
  \<open>where(`readBy.${userId}`, '!=', true)\<close>. Whether the store's \<open>!=\<close> filter returns
  documents that do not have the field at all is a property of the store, not of this
  code, and is the parameter \<open>neqMatchesMissing\<close>. The room update also flags the user
  as active.
\<close>

definition markMessagesAsRead_presence :: "bool \<Rightarrow> db \<Rightarrow> doc_id \<Rightarrow> user_id \<Rightarrow> error + db" where
  "markMessagesAsRead_presence neqMatchesMissing s chatId userId =
     (let unreadSnapshot =
            filter (\<lambda>(mid, m). case m_readBy m userId of
                                  None \<Rightarrow> neqMatchesMissing
                                | Some b \<Rightarrow> b \<noteq> True)
                   (messages s chatId);
          marked = fold (\<lambda>(mid, m) c. updateDoc mid (markRead userId) c)
                     unreadSnapshot (messages s chatId)
      in case getDoc (chatRooms s) chatId of
           None \<Rightarrow> Inl NoDocumentToUpdate
         | Some room \<Rightarrow>
             Inr (s\<lparr>messages := (messages s)(chatId := marked),
                    chatRooms := updateDoc chatId (resetUnread_presence userId) (chatRooms s)\<rparr>))"

section \<open>Room Registry\<close>

text \<open>
  \<open>findExistingPrivateChat\<close>: the query returns the private rooms that contain
  \<open>user1Id\<close>; the first of them that contains \<open>user2Id\<close> is the result.
\<close>

definition findExistingPrivateChat ::
  "db \<Rightarrow> user_id \<Rightarrow> user_id \<Rightarrow> (doc_id \<times> chat_room) option" where
  "findExistingPrivateChat s user1Id user2Id =
     (let snapshot = filter (\<lambda>(k, r). rtype r = Private \<and> user1Id \<in> set (participants r))
                       (chatRooms s)
      in find (\<lambda>(k, data). user2Id \<in> set (participants data)) snapshot)"

text \<open>\<open>addDoc\<close>: a new document under an id the store generates (\<open>newId\<close>).\<close>

definition addDoc :: "doc_id \<Rightarrow> 'a \<Rightarrow> 'a collection \<Rightarrow> 'a collection" where
  "addDoc newId d c = c @ [(newId, d)]"

text \<open>
  \<open>createPrivateChat\<close>. The object literals \<open>{[user1Id]: true, [user2Id]: false}\<close> and
  \<open>{[user1Id]: 0, [user2Id]: 1}\<close> keep the later entry when both keys are the same.
\<close>

definition createPrivateChat ::
  "db \<Rightarrow> doc_id \<Rightarrow> timestamp \<Rightarrow> user_id \<Rightarrow> user_id \<Rightarrow> (doc_id \<times> chat_room) \<times> db" where
  "createPrivateChat s newId now user1Id user2Id =
     (case findExistingPrivateChat s user1Id user2Id of
        Some existingChat \<Rightarrow> (existingChat, s)
      | None \<Rightarrow>
          let chatRoom =
                \<lparr>rtype = Private, rname = None, participants = [user1Id, user2Id],
                 lastMessage = Some \<lparr>lm_text = Some ''Chat created'', lm_timestamp = Some now,
                                     lm_senderId = Some user1Id,
                                     lm_readBy = [user1Id \<mapsto> True, user2Id \<mapsto> False]\<rparr>,
                 createdAt = now, groupAdmin = None,
                 unreadCount = [user1Id \<mapsto> 0, user2Id \<mapsto> 1],
                 unreadCountNested = Map.empty,
                 activeUsers = Map.empty, displayNames = Map.empty\<rparr>
          in ((newId, chatRoom), s\<lparr>chatRooms := addDoc newId chatRoom (chatRooms s)\<rparr>))"

definition getOrCreateDirectChat ::
  "db \<Rightarrow> doc_id \<Rightarrow> timestamp \<Rightarrow> user_id \<Rightarrow> user_id \<Rightarrow> (doc_id \<times> chat_room) \<times> db" where
  "getOrCreateDirectChat s newId now user1Id user2Id =
     (case findExistingPrivateChat s user1Id user2Id of
        Some existingChat \<Rightarrow> (existingChat, s)
      | None \<Rightarrow> createPrivateChat s newId now user1Id user2Id)"

text \<open>
  The private rooms of the unordered pair \<open>{a, b}\<close>: the rooms of type private that have
  both \<open>a\<close> and \<open>b\<close> among their participants, which is what \<open>findExistingPrivateChat\<close>
  looks for. The dedup invariant of the data model says that this list has at most one
  element.
\<close>

definition privateRoomsOfPair :: "db \<Rightarrow> user_id \<Rightarrow> user_id \<Rightarrow> (doc_id \<times> chat_room) list" where
  "privateRoomsOfPair s a b =
     filter (\<lambda>(k, r). rtype r = Private \<and> a \<in> set (participants r) \<and> b \<in> set (participants r))
       (chatRooms s)"

text \<open>\<open>arrayUnion\<close> and \<open>arrayRemove\<close> of one element.\<close>

definition arrayUnion :: "'a \<Rightarrow> 'a list \<Rightarrow> 'a list" where
  "arrayUnion x xs = (if x \<in> set xs then xs else xs @ [x])"

definition arrayRemove :: "'a \<Rightarrow> 'a list \<Rightarrow> 'a list" where
  "arrayRemove x xs = removeAll x xs"

text \<open>
  \<open>addUserToGroup\<close>. \<open>chatData.groupAdmin !== adminId\<close> holds for every \<open>adminId\<close> when
  the room has no \<open>groupAdmin\<close>.
\<close>

definition addUserToGroup :: "db \<Rightarrow> doc_id \<Rightarrow> user_id \<Rightarrow> user_id \<Rightarrow> error + db" where
  "addUserToGroup s chatId adminId userId =
     (case getDoc (chatRooms s) chatId of
        None \<Rightarrow> Inl ChatRoomNotFound
      | Some chatData \<Rightarrow>
          if groupAdmin chatData \<noteq> Some adminId then Inl OnlyGroupAdmin
          else if userId \<in> set (participants chatData) then Inl AlreadyInGroup
          else Inr (s\<lparr>chatRooms := updateDoc chatId
                        (\<lambda>r. r\<lparr>participants := arrayUnion userId (participants r)\<rparr>)
                        (chatRooms s)\<rparr>))"

text \<open>
  The guard of \<open>removeParticipant\<close> is \<open>!room.type === 'group'\<close>. In JavaScript \<open>!\<close>
  binds tighter than \<open>===\<close>: the left operand is the boolean \<open>!room.type\<close>, and \<open>===\<close>
  compares without conversion. The two kinds of value involved:
\<close>

datatype js_value = JSBoolean bool | JSString string

fun truthy :: "js_value \<Rightarrow> bool" where
  "truthy (JSBoolean b) = b"
| "truthy (JSString s) = (s \<noteq> [])"

definition logicalNot :: "js_value \<Rightarrow> js_value" where
  "logicalNot v = JSBoolean (\<not> truthy v)"

fun strictEquals :: "js_value \<Rightarrow> js_value \<Rightarrow> bool" where
  "strictEquals (JSBoolean a) (JSBoolean b) = (a = b)"
| "strictEquals (JSString a) (JSString b) = (a = b)"
| "strictEquals _ _ = False"

fun typeString :: "room_type \<Rightarrow> string" where
  "typeString Private = ''private''"
| "typeString Group = ''group''"

text \<open>
  \<open>removeParticipant\<close> of the first listing, whose import list has \<open>arrayRemove\<close>.
\<close>

definition removeParticipant :: "db \<Rightarrow> doc_id \<Rightarrow> user_id \<Rightarrow> error + db" where
  "removeParticipant s roomId participantId =
     (case getDoc (chatRooms s) roomId of
        None \<Rightarrow> Inl ChatRoomNotFound
      | Some room \<Rightarrow>
          if strictEquals (logicalNot (JSString (typeString (rtype room)))) (JSString ''group'')
          then Inl NonGroupChat
          else Inr (s\<lparr>chatRooms := updateDoc roomId
                        (\<lambda>r. r\<lparr>participants := arrayRemove participantId (participants r)\<rparr>)
                        (chatRooms s)\<rparr>))"

text \<open>
  \<open>removeParticipant\<close> of the second listing has the same body, but the import list of
  that listing (from \<open>collection\<close> to \<open>serverTimestamp\<close>) has no \<open>arrayRemove\<close>, and nothing
  else in the listing declares the name. Evaluating the argument of \<open>updateDoc\<close> therefore
  throws a \<open>ReferenceError\<close> before \<open>updateDoc\<close> is called; the \<open>catch\<close> block logs it and
  throws it again. Nothing is written.
\<close>

definition removeParticipant_presence :: "db \<Rightarrow> doc_id \<Rightarrow> user_id \<Rightarrow> error + db" where
  "removeParticipant_presence s roomId participantId =
     (case getDoc (chatRooms s) roomId of
        None \<Rightarrow> Inl ChatRoomNotFound
      | Some room \<Rightarrow>
          if strictEquals (logicalNot (JSString (typeString (rtype room)))) (JSString ''group'')
          then Inl NonGroupChat
          else Inl ReferenceError)"

section \<open>Relationship Manager\<close>

text \<open>\<open>x || []\<close> for a list field that may be missing.\<close>

definition orEmpty :: "'a list option \<Rightarrow> 'a list" where
  "orEmpty xs = (case xs of None \<Rightarrow> [] | Some l \<Rightarrow> l)"

text \<open>
  \<open>sendFriendRequest\<close>. The two documents are read first; the two \<open>updateDoc\<close> calls then
  run one after the other, each an \<open>arrayUnion\<close> on the document as the store holds it.
\<close>

definition sendFriendRequest :: "db \<Rightarrow> user_id \<Rightarrow> user_id \<Rightarrow> error + db" where
  "sendFriendRequest s senderId receiverId =
     (case (getDoc (users s) senderId, getDoc (users s) receiverId) of
        (Some senderData, Some receiverData) \<Rightarrow>
          let senderFriends = orEmpty (friends senderData);
              receiverFriends = orEmpty (friends receiverData);
              senderSentRequests = orEmpty (fr_sent senderData);
              receiverReceivedRequests = orEmpty (fr_received receiverData)
          in if receiverId \<in> set senderFriends \<or> senderId \<in> set receiverFriends
             then Inl AlreadyFriends
             else if receiverId \<in> set senderSentRequests \<or> senderId \<in> set receiverReceivedRequests
             then Inl FriendRequestAlreadySent
             else
               let s1 = s\<lparr>users := updateDoc senderId
                            (\<lambda>d. d\<lparr>fr_sent := Some (arrayUnion receiverId (orEmpty (fr_sent d)))\<rparr>)
                            (users s)\<rparr>;
                   s2 = s1\<lparr>users := updateDoc receiverId
                            (\<lambda>d. d\<lparr>fr_received := Some (arrayUnion senderId (orEmpty (fr_received d)))\<rparr>)
                            (users s1)\<rparr>
               in Inr s2
      | _ \<Rightarrow> Inl UserNotFound)"

text \<open>
  \<open>acceptFriendRequest\<close>. Both updates write lists computed from the documents as they
  were read at the start (\<open>userData\<close>, \<open>friendData\<close>): the whole \<open>friendRequests\<close> map and
  the \<open>friends\<close> list are replaced.
\<close>

definition acceptFriendRequest :: "db \<Rightarrow> user_id \<Rightarrow> user_id \<Rightarrow> error + db" where
  "acceptFriendRequest s userId friendId =
     (case (getDoc (users s) userId, getDoc (users s) friendId) of
        (Some userData, Some friendData) \<Rightarrow>
          if friendId \<notin> set (orEmpty (fr_received userData)) then Inl FriendRequestNotFound
          else
            let s1 = s\<lparr>users := updateDoc userId
                         (\<lambda>d. d\<lparr>fr_sent := Some (orEmpty (fr_sent userData)),
                                 fr_received := Some (filter (\<lambda>i. i \<noteq> friendId)
                                                        (orEmpty (fr_received userData))),
                                 friends := Some (orEmpty (friends userData) @ [friendId])\<rparr>)
                         (users s)\<rparr>;
                s2 = s1\<lparr>users := updateDoc friendId
                         (\<lambda>d. d\<lparr>fr_sent := Some (filter (\<lambda>i. i \<noteq> userId)
                                                    (orEmpty (fr_sent friendData))),
                                 fr_received := Some (orEmpty (fr_received friendData)),
                                 friends := Some (orEmpty (friends friendData) @ [userId])\<rparr>)
                         (users s1)\<rparr>
            in Inr s2
      | _ \<Rightarrow> Inl UserNotFound)"

text \<open>
  The invariant of the data model for one profile: no user id is both in \<open>friends\<close> and
  in one of the two \<open>friendRequests\<close> lists.
\<close>

definition noFriendPending :: "user_profile \<Rightarrow> bool" where
  "noFriendPending p =
     (set (orEmpty (friends p)) \<inter> (set (orEmpty (fr_sent p)) \<union> set (orEmpty (fr_received p))) = {})"

section \<open>Profile Directory\<close>

text \<open>\<open>isUsernameTaken\<close>: the query \<open>where("username", "==", username)\<close> is not empty.\<close>

definition isUsernameTaken :: "db \<Rightarrow> string \<Rightarrow> bool" where
  "isUsernameTaken s uname = (filter (\<lambda>(k, p). username p = Some uname) (users s) \<noteq> [])"

text \<open>A counter in a template literal: its decimal digits.\<close>

definition digitChar :: "nat \<Rightarrow> char" where
  "digitChar d = char_of (48 + d)"

fun showNat :: "nat \<Rightarrow> string" where
  "showNat n = (if n < 10 then [digitChar n] else showNat (n div 10) @ [digitChar (n mod 10)])"

declare showNat.simps [simp del]

text \<open>
  The loop below stops: a stored username is no longer than all stored usernames
  together, and the decimal digits of a counter grow without bound.
\<close>

definition nameBudget :: "db \<Rightarrow> nat" where
  "nameBudget s = sum_list (map (\<lambda>(k, p). case username p of None \<Rightarrow> 0 | Some u \<Rightarrow> length u) (users s))"

lemma showNat_bound: "n < 10 ^ length (showNat n)"
proof (induction n rule: showNat.induct)
  case (1 n)
  show ?case
  proof (cases "n < 10")
    case True
    then show ?thesis by (simp add: showNat.simps [of n])
  next
    case False
    with 1 have "n div 10 < 10 ^ length (showNat (n div 10))" by simp
    then have "n < 10 * 10 ^ length (showNat (n div 10))" by simp
    with False show ?thesis by (simp add: showNat.simps [of n])
  qed
qed

lemma username_length_le_sum:
  "(k, p) \<in> set us \<Longrightarrow> username p = Some u \<Longrightarrow>
   length u \<le> sum_list (map (\<lambda>(k, p). case username p of None \<Rightarrow> 0 | Some u \<Rightarrow> length u) us)"
  by (induction us) auto

lemma taken_length: "isUsernameTaken s u \<Longrightarrow> length u \<le> nameBudget s"
  by (auto simp: isUsernameTaken_def filter_empty_conv nameBudget_def
      intro: username_length_le_sum)

lemma beyond_budget: "10 ^ nameBudget s \<le> k \<Longrightarrow> \<not> isUsernameTaken s (b @ showNat k)"
proof
  assume a: "10 ^ nameBudget s \<le> k" and t: "isUsernameTaken s (b @ showNat k)"
  from a showNat_bound [of k] have "(10::nat) ^ nameBudget s < 10 ^ length (showNat k)"
    by (rule le_less_trans)
  then have "nameBudget s < length (showNat k)"
    by (rule power_less_imp_less_exp [rotated]) simp
  with taken_length [OF t] show False by simp
qed

text \<open>
  The probing loop of \<open>upsertProfile\<close>:
  \<^verbatim>\<open>while (await this.isUsernameTaken(tempUsername)) { counter++; tempUsername = `${username}${counter}`; }\<close>
  with the loop variables \<open>counter\<close> and \<open>tempUsername\<close> as arguments.
\<close>

function probeUsername :: "db \<Rightarrow> string \<Rightarrow> nat \<Rightarrow> string \<Rightarrow> string" where
  "probeUsername s uname counter tempUsername =
     (if isUsernameTaken s tempUsername
      then probeUsername s uname (Suc counter) (uname @ showNat (Suc counter))
      else tempUsername)"
  by pat_completeness auto

termination probeUsername
proof (relation "measure (\<lambda>(s, uname, counter, temp).
          2 * (10 ^ nameBudget s - counter) + (if isUsernameTaken s temp then 1 else 0))")
  show "wf (measure (\<lambda>(s, uname, counter, temp).
          2 * (10 ^ nameBudget s - counter) + (if isUsernameTaken s temp then 1 else 0)))"
    by simp
next
  fix s :: db and uname :: string and counter :: nat and tempUsername :: string
  assume t: "isUsernameTaken s tempUsername"
  show "((s, uname, Suc counter, uname @ showNat (Suc counter)), s, uname, counter, tempUsername)
       \<in> measure (\<lambda>(s, uname, counter, temp).
          2 * (10 ^ nameBudget s - counter) + (if isUsernameTaken s temp then 1 else 0))"
  proof (cases "counter < 10 ^ nameBudget s")
    case True
    with t show ?thesis by simp arith
  next
    case False
    then have "10 ^ nameBudget s \<le> Suc counter" by simp
    from beyond_budget [OF this] have "\<not> isUsernameTaken s (uname @ showNat (Suc counter))" .
    with t False show ?thesis by simp
  qed
qed

declare probeUsername.simps [simp del]

text \<open>A string that may be missing is falsy when it is missing or empty.\<close>

definition present :: "string option \<Rightarrow> bool" where
  "present x = (case x of None \<Rightarrow> False | Some v \<Rightarrow> v \<noteq> [])"

definition mergeField :: "'a option \<Rightarrow> 'a option \<Rightarrow> 'a option" where
  "mergeField new old = (case new of None \<Rightarrow> old | Some v \<Rightarrow> Some v)"

text \<open>\<open>setDoc(ref, data, { merge: true })\<close>: the fields of \<open>data\<close> replace those stored,
  the other fields stay; a missing document is created.\<close>

definition mergeProfile :: "user_profile \<Rightarrow> user_profile \<Rightarrow> user_profile" where
  "mergeProfile d old =
     \<lparr>p_id = mergeField (p_id d) (p_id old),
      email = mergeField (email d) (email old),
      username = mergeField (username d) (username old),
      qrCode = mergeField (qrCode d) (qrCode old),
      lastSeen = mergeField (lastSeen d) (lastSeen old),
      displayName = mergeField (displayName d) (displayName old),
      photoURL = mergeField (photoURL d) (photoURL old),
      status = mergeField (status d) (status old),
      friends = mergeField (friends d) (friends old),
      fr_sent = mergeField (fr_sent d) (fr_sent old),
      fr_received = mergeField (fr_received d) (fr_received old)\<rparr>"

definition setDocMerge :: "doc_id \<Rightarrow> user_profile \<Rightarrow> user_profile collection \<Rightarrow> user_profile collection" where
  "setDocMerge k d c = (if k \<in> fst ` set c then updateDoc k (mergeProfile d) c else c @ [(k, d)])"

text \<open>
  \<open>upsertProfile\<close>. \<open>generateQRCode\<close> is the QR library (\<open>None\<close> when it throws),
  \<open>now\<close> is \<open>new Date()\<close>. The test \<open>!username && data.email\<close> holds when the username
  is missing or empty and the email is there and not empty. \<open>data.email.split("@")[0]\<close> is
  the text before the first \<open>@\<close>. Fields that are \<open>undefined\<close> are deleted from
  \<open>userData\<close> before the write.
\<close>

definition upsertProfile ::
  "(user_id \<Rightarrow> string option) \<Rightarrow> timestamp \<Rightarrow> db \<Rightarrow> user_id \<Rightarrow> user_profile
     \<Rightarrow> error + (user_profile \<times> db)" where
  "upsertProfile generateQRCode now s userId dat =
     (case generateQRCode userId of
        None \<Rightarrow> Inl QRCodeError
      | Some qr \<Rightarrow>
          let uname =
                (case email dat of
                   Some e \<Rightarrow>
                     if \<not> present (username dat) \<and> e \<noteq> []
                     then (let u = takeWhile (\<lambda>c. c \<noteq> CHR ''@'') e
                           in Some (probeUsername s u 0 u))
                     else username dat
                 | None \<Rightarrow> username dat);
              userData =
                \<lparr>p_id = Some userId, email = email dat, username = uname,
                 qrCode = Some qr, lastSeen = Some now,
                 displayName = (if present (displayName dat) then displayName dat else None),
                 photoURL = (if present (photoURL dat) then photoURL dat else None),
                 status = (if present (status dat) then status dat else None),
                 friends = None, fr_sent = None, fr_received = None\<rparr>
          in Inr (userData, s\<lparr>users := setDocMerge userId userData (users s)\<rparr>))"

section \<open>Example data\<close>

text \<open>
  A private room of alice and bob in which alice has two unread messages, and a store
  that holds only this room.
\<close>

definition exampleRoom :: chat_room where
  "exampleRoom = \<lparr>rtype = Private, rname = None, participants = [''alice'', ''bob''],
     lastMessage = None, createdAt = 1, groupAdmin = None,
     unreadCount = [''alice'' \<mapsto> 2, ''bob'' \<mapsto> 0], unreadCountNested = Map.empty,
     activeUsers = Map.empty, displayNames = Map.empty\<rparr>"

definition exampleDb :: db where
  "exampleDb = \<lparr>chatRooms = [(''r1'', exampleRoom)], messages = (\<lambda>_. []), users = []\<rparr>"

text \<open>
  A store with one profile whose username is \<open>bob\<close>, a registration that brings only the
  email \<open>bob@x.com\<close>, and a QR library that fails on the empty id only.
\<close>

definition bobProfile :: user_profile where
  "bobProfile = \<lparr>p_id = Some ''u0'', email = Some ''bob@y.org'', username = Some ''bob'',
     qrCode = None, lastSeen = None, displayName = None, photoURL = None, status = None,
     friends = None, fr_sent = None, fr_received = None\<rparr>"

definition usersDb :: db where
  "usersDb = \<lparr>chatRooms = [], messages = (\<lambda>_. []), users = [(''u0'', bobProfile)]\<rparr>"

definition registration :: user_profile where
  "registration = \<lparr>p_id = None, email = Some ''bob@x.com'', username = None,
     qrCode = None, lastSeen = None, displayName = None, photoURL = None, status = None,
     friends = None, fr_sent = None, fr_received = None\<rparr>"

definition exampleQRCode :: "user_id \<Rightarrow> string option" where
  "exampleQRCode u = (if u = [] then None else Some (''qr:'' @ u))"

text \<open>
  A group of alice, bob and carol. Its one message was sent by alice when carol was not
  yet a member: the message has no \<open>readBy\<close> entry for carol, and bob has not read it.
\<close>

definition earlierMessage :: message where
  "earlierMessage = \<lparr>m_text = ''hello'', m_senderId = ''alice'', m_timestamp = 3,
     m_readBy = [''alice'' \<mapsto> True, ''bob'' \<mapsto> False]\<rparr>"

definition groupRoom :: chat_room where
  "groupRoom = \<lparr>rtype = Group, rname = Some ''team'',
     participants = [''alice'', ''bob'', ''carol''],
     lastMessage = Some \<lparr>lm_text = Some ''hello'', lm_timestamp = Some 3,
                         lm_senderId = Some ''alice'',
                         lm_readBy = [''alice'' \<mapsto> True, ''bob'' \<mapsto> False]\<rparr>,
     createdAt = 1, groupAdmin = Some ''alice'',
     unreadCount = [''bob'' \<mapsto> 1], unreadCountNested = Map.empty,
     activeUsers = Map.empty, displayNames = Map.empty\<rparr>"

definition groupDb :: db where
  "groupDb = \<lparr>chatRooms = [(''g1'', groupRoom)],
     messages = (\<lambda>_. [])(''g1'' := [(''m0'', earlierMessage)]), users = []\<rparr>"

text \<open>The store with no documents.\<close>

definition emptyDb :: db where
  "emptyDb = \<lparr>chatRooms = [], messages = (\<lambda>_. []), users = []\<rparr>"

text \<open>
  Four profiles: alice and carol are friends, bob has a pending request to alice, dave
  has no relationship fields at all.
\<close>

definition blankProfile :: user_profile where
  "blankProfile = \<lparr>p_id = None, email = None, username = None,
     qrCode = None, lastSeen = None, displayName = None, photoURL = None, status = None,
     friends = None, fr_sent = None, fr_received = None\<rparr>"

definition socialDb :: db where
  "socialDb = \<lparr>chatRooms = [], messages = (\<lambda>_. []),
     users = [(''alice'', blankProfile\<lparr>friends := Some [''carol''], fr_received := Some [''bob'']\<rparr>),
              (''bob'', blankProfile\<lparr>fr_sent := Some [''alice'']\<rparr>),
              (''carol'', blankProfile\<lparr>friends := Some [''alice'']\<rparr>),
              (''dave'', blankProfile)]\<rparr>"

text \<open>
  A private room whose second participant has an id with a dot.
\<close>

definition dottedRoom :: chat_room where
  "dottedRoom = \<lparr>rtype = Private, rname = None, participants = [''alice'', ''b.ob''],
     lastMessage = None, createdAt = 1, groupAdmin = None,
     unreadCount = [''alice'' \<mapsto> 0, ''b.ob'' \<mapsto> 1], unreadCountNested = Map.empty,
     activeUsers = Map.empty, displayNames = Map.empty\<rparr>"

definition dottedDb :: db where
  "dottedDb = \<lparr>chatRooms = [(''r5'', dottedRoom)], messages = (\<lambda>_. []), users = []\<rparr>"

text \<open>
  A private room whose second participant has an id with a slash.
\<close>

definition slashRoom :: chat_room where
  "slashRoom = \<lparr>rtype = Private, rname = None, participants = [''alice'', ''a/b''],
     lastMessage = None, createdAt = 1, groupAdmin = None,
     unreadCount = [''alice'' \<mapsto> 0, ''a/b'' \<mapsto> 1], unreadCountNested = Map.empty,
     activeUsers = Map.empty, displayNames = Map.empty\<rparr>"

definition slashDb :: db where
  "slashDb = \<lparr>chatRooms = [(''r6'', slashRoom)], messages = (\<lambda>_. []), users = []\<rparr>"

section \<open>Facts about the store\<close>

lemma getDoc_updateDoc:
  "getDoc (updateDoc k f c) k' = (if k' = k then map_option f (getDoc c k') else getDoc c k')"
  by (induction c) (auto simp: getDoc_def updateDoc_def)

lemma updateDoc_keys: "map fst (updateDoc k f c) = map fst c"
  by (induction c) (auto simp: updateDoc_def)

lemma setDoc_fresh: "k \<notin> fst ` set c \<Longrightarrow> setDoc k d c = c @ [(k, d)]"
  by (simp add: setDoc_def)

lemma fold_readBy:
  "fold (\<lambda>p m. m(p \<mapsto> g p)) ps m0 k = (if k \<in> set ps then Some (g k) else m0 k)"
  by (induction ps arbitrary: m0) auto

section \<open>Facts about field paths and counter writes\<close>

lemma splitDots_nonempty: "splitDots s \<noteq> []"
  by (induction s) (auto split: list.splits)

lemma splitDots_plain: "CHR ''.'' \<notin> set a \<Longrightarrow> splitDots a = [a]"
  by (induction a) auto

lemma splitDots_append:
  "CHR ''.'' \<notin> set a \<Longrightarrow> splitDots (a @ CHR ''.'' # b) = a # splitDots b"
  by (induction a) auto

lemma validFieldName_unreadCount: "validFieldName ''unreadCount''"
  by (simp add: validFieldName_def)

lemma fieldPath_plain:
  assumes "plainId p"
  shows "fieldPathFromDotSeparatedString (''unreadCount.'' @ p) = Some [''unreadCount'', p]"
proof -
  have nodot: "CHR ''.'' \<notin> set p" and nores: "\<not> list_ex reservedPathChar p"
    and valid: "validFieldName p"
    using assms by (auto simp: plainId_def list_ex_iff)
  have "splitDots (''unreadCount'' @ CHR ''.'' # p) = ''unreadCount'' # splitDots p"
    by (rule splitDots_append) simp
  hence split: "splitDots (''unreadCount.'' @ p) = [''unreadCount'', p]"
    using splitDots_plain [OF nodot] by simp
  have "\<not> list_ex reservedPathChar (''unreadCount.'' @ p)"
    using nores by (simp add: reservedPathChar_def)
  thus ?thesis
    unfolding fieldPathFromDotSeparatedString_def split
    using valid validFieldName_unreadCount by simp
qed

lemma parseUpdateData_None:
  "(parseUpdateData es = None) = (\<exists>k \<in> fst ` set es. fieldPathFromDotSeparatedString k = None)"
proof (induction es rule: parseUpdateData.induct)
  case 1
  show ?case by simp
next
  case (2 key upd rest)
  show ?case
  proof (cases "fieldPathFromDotSeparatedString key")
    case None
    thus ?thesis by simp
  next
    case (Some path)
    with "2.IH" [OF Some] show ?thesis by (simp split: option.splits) force
  qed
qed

lemma parseUpdateData_Some:
  "\<forall>k \<in> fst ` set es. fieldPathFromDotSeparatedString k \<noteq> None \<Longrightarrow>
   parseUpdateData es = Some (map (\<lambda>(k, u). (the (fieldPathFromDotSeparatedString k), u)) es)"
proof (induction es rule: parseUpdateData.induct)
  case 1
  show ?case by simp
next
  case (2 key upd rest)
  from "2.prems" obtain path where path: "fieldPathFromDotSeparatedString key = Some path"
    by auto
  from "2.prems" have "\<forall>k \<in> fst ` set rest. fieldPathFromDotSeparatedString k \<noteq> None"
    by simp
  from "2.IH" [OF path this] path show ?case by simp
qed

lemma map_assign_keys:
  "map fst (map (\<lambda>(k', v'). if k' = k then (k', v) else (k', v')) obj) = map fst obj"
  by (induction obj) auto

lemma assign_keys: "fst ` set (assign k v obj) = insert k (fst ` set obj)"
proof (cases "k \<in> fst ` set obj")
  case True
  have "fst ` set (map (\<lambda>(k', v'). if k' = k then (k', v) else (k', v')) obj) = fst ` set obj"
    using map_assign_keys [of k v obj] by (metis set_map)
  with True show ?thesis by (auto simp: assign_def)
next
  case False
  thus ?thesis by (simp add: assign_def)
qed

lemma assign_distinct:
  assumes "distinct (map fst obj)"
  shows "distinct (map fst (assign k v obj))"
proof (cases "k \<in> fst ` set obj")
  case True
  thus ?thesis using assms by (simp add: assign_def map_assign_keys del: map_map)
next
  case False
  thus ?thesis using assms by (simp add: assign_def)
qed

lemma map_of_replace:
  "map_of (map (\<lambda>(k', v'). if k' = k then (k', v) else (k', v')) obj) x =
     (if x = k then map_option (\<lambda>_. v) (map_of obj k) else map_of obj x)"
proof (induction obj)
  case Nil
  show ?case by simp
next
  case (Cons e obj)
  obtain k' v' where e: "e = (k', v')" by (cases e)
  show ?case unfolding e using Cons.IH by (cases "k' = k") auto
qed

lemma map_of_assign: "map_of (assign k v obj) = (map_of obj)(k \<mapsto> v)"
proof (cases "k \<in> fst ` set obj")
  case True
  then obtain w where "map_of obj k = Some w"
    by (cases "map_of obj k") (simp_all add: map_of_eq_None_iff)
  with True show ?thesis by (simp add: assign_def fun_eq_iff map_of_replace)
next
  case False
  hence none: "map_of obj k = None" by (simp add: map_of_eq_None_iff)
  have "(map_of [(k, v)] ++ map_of obj) x = ((map_of obj)(k \<mapsto> v)) x" for x
    using none by (cases "map_of obj x") (auto simp: map_add_def)
  with False show ?thesis by (simp add: assign_def fun_eq_iff)
qed


lemma assign_prefix:
  "assign (pre @ p) v (map (\<lambda>(q, u). (pre @ q, u)) ups) =
   map (\<lambda>(q, u). (pre @ q, u)) (assign p v ups)"
proof -
  have mem: "(pre @ p \<in> fst ` set (map (\<lambda>(q, u). (pre @ q, u)) ups)) = (p \<in> fst ` set ups)"
    by (force simp: image_iff)
  have repl: "map (\<lambda>(k', v'). if k' = pre @ p then (k', v) else (k', v'))
                 (map (\<lambda>(q, u). (pre @ q, u)) ups) =
              map (\<lambda>(q, u). (pre @ q, u))
                 (map (\<lambda>(k', v'). if k' = p then (k', v) else (k', v')) ups)"
    by (induction ups) auto
  show ?thesis
    unfolding assign_def mem using repl by (cases "p \<in> fst ` set ups") simp_all
qed

lemma fold_assign_prefix:
  "fold (\<lambda>p u. if c p then assign (pre @ p) a u else u) ps (map (\<lambda>(q, u). (pre @ q, u)) u0) =
   map (\<lambda>(q, u). (pre @ q, u)) (fold (\<lambda>p u. if c p then assign p a u else u) ps u0)"
  by (induction ps arbitrary: u0) (simp_all add: assign_prefix)

lemma fold_assign_prefix_both:
  "fold (\<lambda>p u. if c p then assign (pre @ p) a u else assign (pre @ p) b u) ps
        (map (\<lambda>(q, u). (pre @ q, u)) u0) =
   map (\<lambda>(q, u). (pre @ q, u))
       (fold (\<lambda>p u. if c p then assign p a u else assign p b u) ps u0)"
  by (induction ps arbitrary: u0) (simp_all add: assign_prefix)

lemma fold_assign_map_of:
  "map_of (fold (\<lambda>p u. if c p then assign p a u else u) ps u0) k =
     (if k \<in> set ps \<and> c k then Some a else map_of u0 k)"
  by (induction ps arbitrary: u0) (simp_all add: map_of_assign)

lemma fold_assign_map_of_both:
  "map_of (fold (\<lambda>p u. if c p then assign p a u else assign p b u) ps u0) k =
     (if k \<in> set ps then Some (if c k then a else b) else map_of u0 k)"
  by (induction ps arbitrary: u0) (simp_all add: map_of_assign)

lemma fold_assign_distinct:
  "distinct (map fst u0) \<Longrightarrow>
   distinct (map fst (fold (\<lambda>p u. if c p then assign p a u else u) ps u0))"
  by (induction ps arbitrary: u0) (simp_all add: assign_distinct)

lemma fold_assign_distinct_both:
  "distinct (map fst u0) \<Longrightarrow>
   distinct (map fst (fold (\<lambda>p u. if c p then assign p a u else assign p b u) ps u0))"
  by (induction ps arbitrary: u0) (simp_all add: assign_distinct)

lemma fold_assign_keys:
  "fst ` set (fold (\<lambda>p u. if c p then assign p a u else u) ps u0) =
     fst ` set u0 \<union> {p \<in> set ps. c p}"
  by (induction ps arbitrary: u0) (auto simp: assign_keys)

lemma fold_assign_keys_both:
  "fst ` set (fold (\<lambda>p u. if c p then assign p a u else assign p b u) ps u0) =
     fst ` set u0 \<union> set ps"
  by (induction ps arbitrary: u0) (auto simp: assign_keys)

lemma parseUpdateData_plain:
  "\<forall>q \<in> fst ` set ups. plainId q \<Longrightarrow>
   parseUpdateData (map (\<lambda>(q, u). (''unreadCount.'' @ q, u)) ups) =
     Some (map (\<lambda>(q, u). ([''unreadCount'', q], u)) ups)"
proof (induction ups)
  case Nil
  show ?case by simp
next
  case (Cons e ups)
  obtain q u where e: "e = (q, u)" by (cases e)
  from Cons.prems e have "plainId q" by simp
  hence "fieldPathFromDotSeparatedString (''unreadCount.'' @ q) = Some [''unreadCount'', q]"
    by (rule fieldPath_plain)
  moreover from Cons.prems have "\<forall>q \<in> fst ` set ups. plainId q" by simp
  ultimately show ?case using Cons.IH e by simp
qed

lemma applyFieldWrites_counters:
  "applyFieldWrites (map (\<lambda>(q, u). ([''unreadCount'', q], u)) ups) r =
     fold (\<lambda>(q, u). writeCounter [q] u) ups r"
  unfolding applyFieldWrites_def
  by (induction ups arbitrary: r) (auto simp: writeField_def)

lemma fold_writeCounter_lastMessage:
  "lastMessage (fold (\<lambda>(q, u). writeCounter [q] u) ups r) = lastMessage r"
  by (induction ups arbitrary: r) auto

lemma fold_writeCounter_other:
  "q \<notin> fst ` set ups \<Longrightarrow>
   unreadCount (fold (\<lambda>(q, u). writeCounter [q] u) ups r) q = unreadCount r q"
  by (induction ups arbitrary: r) auto

lemma fold_writeCounter_unreadCount:
  "distinct (map fst ups) \<Longrightarrow>
   unreadCount (fold (\<lambda>(q, u). writeCounter [q] u) ups r) P =
     (case map_of ups P of
        None \<Rightarrow> unreadCount r P
      | Some u \<Rightarrow> Some (fieldValue u (unreadCount r P)))"
proof (induction ups arbitrary: r)
  case Nil
  show ?case by simp
next
  case (Cons e ups)
  obtain q u where e: "e = (q, u)" by (cases e)
  from Cons.prems e have fresh: "q \<notin> fst ` set ups" and dist: "distinct (map fst ups)"
    by simp_all
  show ?case
  proof (cases "P = q")
    case True
    with fresh have none: "map_of ups P = None" by (simp add: map_of_eq_None_iff)
    have "unreadCount (fold (\<lambda>(q, u). writeCounter [q] u) ups (writeCounter [q] u r)) q =
          unreadCount (writeCounter [q] u r) q"
      by (rule fold_writeCounter_other [OF fresh])
    moreover have "unreadCount (writeCounter [q] u r) q = Some (fieldValue u (unreadCount r q))"
      by simp
    ultimately show ?thesis using True e none by (simp del: writeCounter.simps)
  next
    case False
    hence "unreadCount (writeCounter [q] u r) P = unreadCount r P" by simp
    thus ?thesis using Cons.IH [OF dist, of "writeCounter [q] u r"] e False
      by (simp del: writeCounter.simps split: option.splits)
  qed
qed


lemma updateData_parsed:
  assumes "\<forall>p \<in> set ps. c p \<longrightarrow> plainId p"
  shows "parseUpdateData (fold (\<lambda>p u. if c p then assign (''unreadCount.'' @ p) a u else u) ps []) =
     Some (map (\<lambda>(q, u). ([''unreadCount'', q], u))
             (fold (\<lambda>p u. if c p then assign p a u else u) ps []))"
proof -
  have "fold (\<lambda>p u. if c p then assign (''unreadCount.'' @ p) a u else u) ps [] =
        map (\<lambda>(q, u). (''unreadCount.'' @ q, u))
          (fold (\<lambda>p u. if c p then assign p a u else u) ps [])"
    using fold_assign_prefix [of c "''unreadCount.''" a ps "[]"] by simp
  moreover have "\<forall>q \<in> fst ` set (fold (\<lambda>p u. if c p then assign p a u else u) ps []). plainId q"
    using assms by (simp add: fold_assign_keys)
  ultimately show ?thesis by (simp only: parseUpdateData_plain)
qed

lemma updateData_parsed_both:
  assumes "\<forall>p \<in> set ps. plainId p"
  shows "parseUpdateData
       (fold (\<lambda>p u. if c p then assign (''unreadCount.'' @ p) a u
                    else assign (''unreadCount.'' @ p) b u) ps []) =
     Some (map (\<lambda>(q, u). ([''unreadCount'', q], u))
             (fold (\<lambda>p u. if c p then assign p a u else assign p b u) ps []))"
proof -
  have "fold (\<lambda>p u. if c p then assign (''unreadCount.'' @ p) a u
                    else assign (''unreadCount.'' @ p) b u) ps [] =
        map (\<lambda>(q, u). (''unreadCount.'' @ q, u))
          (fold (\<lambda>p u. if c p then assign p a u else assign p b u) ps [])"
    using fold_assign_prefix_both [of c "''unreadCount.''" a b ps "[]"] by simp
  moreover have "\<forall>q \<in> fst ` set (fold (\<lambda>p u. if c p then assign p a u else assign p b u) ps []).
      plainId q"
    using assms by (simp add: fold_assign_keys_both)
  ultimately show ?thesis by (simp only: parseUpdateData_plain)
qed

lemma updateData_refused:
  assumes "p \<in> set ps" and "c p"
    and "fieldPathFromDotSeparatedString (''unreadCount.'' @ p) = None"
  shows "parseUpdateData (fold (\<lambda>p u. if c p then assign (''unreadCount.'' @ p) a u else u) ps []) =
     None"
proof -
  have eq: "fold (\<lambda>p u. if c p then assign (''unreadCount.'' @ p) a u else u) ps [] =
        map (\<lambda>(q, u). (''unreadCount.'' @ q, u))
          (fold (\<lambda>p u. if c p then assign p a u else u) ps [])"
    using fold_assign_prefix [of c "''unreadCount.''" a ps "[]"] by simp
  have "p \<in> fst ` set (fold (\<lambda>p u. if c p then assign p a u else u) ps [])"
    using assms(1,2) by (simp add: fold_assign_keys)
  then obtain u where "(p, u) \<in> set (fold (\<lambda>p u. if c p then assign p a u else u) ps [])"
    by auto
  hence "(''unreadCount.'' @ p, u) \<in>
      set (map (\<lambda>(q, u). (''unreadCount.'' @ q, u))
             (fold (\<lambda>p u. if c p then assign p a u else u) ps []))"
    by force
  hence "''unreadCount.'' @ p \<in> fst ` set
      (map (\<lambda>(q, u). (''unreadCount.'' @ q, u))
             (fold (\<lambda>p u. if c p then assign p a u else u) ps []))"
    by (rule image_eqI [rotated]) simp
  thus ?thesis unfolding eq parseUpdateData_None using assms(3) by (rule_tac bexI)
qed

lemma updateData_refused_both:
  assumes "p \<in> set ps"
    and "fieldPathFromDotSeparatedString (''unreadCount.'' @ p) = None"
  shows "parseUpdateData
       (fold (\<lambda>p u. if c p then assign (''unreadCount.'' @ p) a u
                    else assign (''unreadCount.'' @ p) b u) ps []) = None"
proof -
  have eq: "fold (\<lambda>p u. if c p then assign (''unreadCount.'' @ p) a u
                    else assign (''unreadCount.'' @ p) b u) ps [] =
        map (\<lambda>(q, u). (''unreadCount.'' @ q, u))
          (fold (\<lambda>p u. if c p then assign p a u else assign p b u) ps [])"
    using fold_assign_prefix_both [of c "''unreadCount.''" a b ps "[]"] by simp
  have "p \<in> fst ` set (fold (\<lambda>p u. if c p then assign p a u else assign p b u) ps [])"
    using assms(1) by (simp add: fold_assign_keys_both)
  then obtain u where
    "(p, u) \<in> set (fold (\<lambda>p u. if c p then assign p a u else assign p b u) ps [])"
    by auto
  hence "(''unreadCount.'' @ p, u) \<in>
      set (map (\<lambda>(q, u). (''unreadCount.'' @ q, u))
             (fold (\<lambda>p u. if c p then assign p a u else assign p b u) ps []))"
    by force
  hence "''unreadCount.'' @ p \<in> fst ` set
      (map (\<lambda>(q, u). (''unreadCount.'' @ q, u))
             (fold (\<lambda>p u. if c p then assign p a u else assign p b u) ps []))"
    by (rule image_eqI [rotated]) simp
  thus ?thesis unfolding eq parseUpdateData_None using assms(2) by (rule_tac bexI)
qed

lemma counters_written:
  "unreadCount (applyFieldWrites (map (\<lambda>(q, u). ([''unreadCount'', q], u))
       (fold (\<lambda>p u. if c p then assign p a u else u) ps [])) r) P =
     (if P \<in> set ps \<and> c P then Some (fieldValue a (unreadCount r P)) else unreadCount r P)"
  by (simp add: applyFieldWrites_counters fold_writeCounter_unreadCount fold_assign_distinct
      fold_assign_map_of)

lemma counters_written_both:
  "unreadCount (applyFieldWrites (map (\<lambda>(q, u). ([''unreadCount'', q], u))
       (fold (\<lambda>p u. if c p then assign p a u else assign p b u) ps [])) r) P =
     (if P \<in> set ps then Some (fieldValue (if c P then a else b) (unreadCount r P))
      else unreadCount r P)"
  by (simp add: applyFieldWrites_counters fold_writeCounter_unreadCount fold_assign_distinct_both
      fold_assign_map_of_both)

lemma lastMessage_written:
  "lastMessage (applyFieldWrites (map (\<lambda>(q, u). ([''unreadCount'', q], u)) ups) r) = lastMessage r"
  by (simp add: applyFieldWrites_counters fold_writeCounter_lastMessage)

section \<open>Sending a message\<close>

text \<open>
  What a send writes, in each listing, for a room that exists and a message id that is new
  in the room's message collection.
\<close>

lemma sendMessage_effect:
  assumes "getDoc (chatRooms s) R = Some room"
    and "mid \<notin> fst ` set (messages s R)"
    and "list_all plainId (participants room)"
  shows "\<exists>msg s' room'.
       sendMessage s mid now R S txt = Inr (mid, s') \<and>
       messages s' R = messages s R @ [(mid, msg)] \<and>
       m_text msg = txt \<and> m_senderId msg = S \<and> m_timestamp msg = now \<and>
       (\<forall>P. m_readBy msg P = (if P \<in> set (participants room) then Some (P = S) else None)) \<and>
       getDoc (chatRooms s') R = Some room' \<and>
       lastMessage room' = Some \<lparr>lm_text = Some (m_text msg), lm_timestamp = Some (m_timestamp msg),
                                 lm_senderId = Some (m_senderId msg), lm_readBy = m_readBy msg\<rparr> \<and>
       (\<forall>P. unreadCount room' P =
             (if m_readBy msg P = Some False
              then Some ((case unreadCount room P of None \<Rightarrow> 0 | Some n \<Rightarrow> n) + 1)
              else unreadCount room P))"
proof -
  from assms(3) have valid: "list_all validFieldName (participants room)"
    by (simp add: list_all_iff plainId_def)
  from assms(3) have "\<forall>p \<in> set (participants room). p \<noteq> S \<longrightarrow> plainId p"
    by (simp add: list_all_iff)
  note parse = updateData_parsed [of "participants room" "\<lambda>p. p \<noteq> S" "Increment 1", OF this]
  show ?thesis
    using assms(1,2) valid parse
    by (auto simp: sendMessage_def Let_def getDoc_updateDoc setDoc_fresh fold_readBy
        counters_written lastMessage_written fieldValue_def)
qed

lemma sendMessage_presence_effect:
  assumes "getDoc (chatRooms s) R = Some room"
    and "mid \<notin> fst ` set (messages s R)"
    and "R \<noteq> []" and "S \<noteq> []" and "trim txt \<noteq> []"
    and "list_all plainId (participants room)"
  shows "\<exists>msg s' room'.
       sendMessage_presence s mid now R S txt = Inr ((mid, msg), s') \<and>
       messages s' R = messages s R @ [(mid, msg)] \<and>
       m_text msg = trim txt \<and> m_senderId msg = S \<and> m_timestamp msg = now \<and>
       (\<forall>P. m_readBy msg P = (if P \<in> set (participants room)
                                then Some (P = S \<or> activeUsers room P = Some True) else None)) \<and>
       getDoc (chatRooms s') R = Some room' \<and>
       lastMessage room' = Some \<lparr>lm_text = Some (m_text msg), lm_timestamp = Some (m_timestamp msg),
                                 lm_senderId = Some (m_senderId msg), lm_readBy = m_readBy msg\<rparr> \<and>
       (\<forall>P. unreadCount room' P =
             (if m_readBy msg P = Some False
              then Some ((case unreadCount room P of None \<Rightarrow> 0 | Some n \<Rightarrow> n) + 1)
              else if m_readBy msg P = Some True then Some 0
              else unreadCount room P))"
proof -
  from assms(6) have valid: "list_all validFieldName (participants room)"
    by (simp add: list_all_iff plainId_def)
  from assms(6) have "\<forall>p \<in> set (participants room). plainId p"
    by (simp add: list_all_iff)
  note parse = updateData_parsed_both [of "participants room"
      "\<lambda>p. \<not> (activeUsers room p = Some True \<or> p = S)" "Increment 1" "SetTo 0", OF this]
  show ?thesis
    using assms(1-5) valid parse
    by (auto simp: sendMessage_presence_def Let_def getDoc_updateDoc setDoc_fresh fold_readBy
        counters_written_both lastMessage_written fieldValue_def)
qed


text \<open>
  Claim C1, as the code has it. Let room \<open>R\<close> exist, let the sender \<open>S\<close> be one of its
  participants, let the ids of its participants be plain, so that the key
  \<open>unreadCount.${id}\<close> is the path of the entry \<open>unreadCount[id]\<close>, and let the store give
  the message a new id. In the first listing
  \<open>sendMessage\<close> succeeds and appends one message whose \<open>readBy\<close> maps \<open>S\<close> to true and
  every other participant to false; the same batch sets the room's \<open>lastMessage\<close> to the
  message's snapshot and adds exactly 1 to \<open>unreadCount[P]\<close> for every participant whose
  \<open>readBy\<close> is false. No counter is reset there: \<open>unreadCount[S]\<close> keeps the value it had.
  In the presence-aware listing (second conjunct), when the arguments pass validation,
  \<open>readBy[P]\<close> is true exactly for the sender and the participants flagged active, the
  counters of participants with \<open>readBy\<close> false grow by exactly 1 and the counters of those
  with \<open>readBy\<close> true are set to 0, so \<open>unreadCount[S]\<close> ends at 0.
\<close>

theorem sendMessage_batch:
  assumes "getDoc (chatRooms s) R = Some room"
    and "S \<in> set (participants room)"
    and "mid \<notin> fst ` set (messages s R)"
    and "list_all plainId (participants room)"
  shows "(\<exists>msg s' room'.
       sendMessage s mid now R S txt = Inr (mid, s') \<and>
       messages s' R = messages s R @ [(mid, msg)] \<and>
       m_text msg = txt \<and> m_senderId msg = S \<and>
       (\<forall>P. m_readBy msg P = (if P \<in> set (participants room) then Some (P = S) else None)) \<and>
       getDoc (chatRooms s') R = Some room' \<and>
       lastMessage room' = Some \<lparr>lm_text = Some (m_text msg), lm_timestamp = Some (m_timestamp msg),
                                 lm_senderId = Some (m_senderId msg), lm_readBy = m_readBy msg\<rparr> \<and>
       (\<forall>P. unreadCount room' P =
             (if m_readBy msg P = Some False
              then Some ((case unreadCount room P of None \<Rightarrow> 0 | Some n \<Rightarrow> n) + 1)
              else unreadCount room P)) \<and>
       unreadCount room' S = unreadCount room S) \<and>
    (R \<noteq> [] \<and> S \<noteq> [] \<and> trim txt \<noteq> [] \<longrightarrow>
     (\<exists>msg s' room'.
       sendMessage_presence s mid now R S txt = Inr ((mid, msg), s') \<and>
       messages s' R = messages s R @ [(mid, msg)] \<and>
       m_text msg = trim txt \<and> m_senderId msg = S \<and>
       (\<forall>P. m_readBy msg P = (if P \<in> set (participants room)
                                then Some (P = S \<or> activeUsers room P = Some True) else None)) \<and>
       getDoc (chatRooms s') R = Some room' \<and>
       lastMessage room' = Some \<lparr>lm_text = Some (m_text msg), lm_timestamp = Some (m_timestamp msg),
                                 lm_senderId = Some (m_senderId msg), lm_readBy = m_readBy msg\<rparr> \<and>
       (\<forall>P. unreadCount room' P =
             (if m_readBy msg P = Some False
              then Some ((case unreadCount room P of None \<Rightarrow> 0 | Some n \<Rightarrow> n) + 1)
              else if m_readBy msg P = Some True then Some 0
              else unreadCount room P)) \<and>
       unreadCount room' S = Some 0))"
proof (intro conjI)
  from sendMessage_effect [OF assms(1) assms(3) assms(4), of now S "txt"]
  obtain msg s' room' where e:
    "sendMessage s mid now R S txt = Inr (mid, s')"
    "messages s' R = messages s R @ [(mid, msg)]"
    "m_text msg = txt" "m_senderId msg = S"
    "\<forall>P. m_readBy msg P = (if P \<in> set (participants room) then Some (P = S) else None)"
    "getDoc (chatRooms s') R = Some room'"
    "lastMessage room' = Some \<lparr>lm_text = Some (m_text msg), lm_timestamp = Some (m_timestamp msg),
                                 lm_senderId = Some (m_senderId msg), lm_readBy = m_readBy msg\<rparr>"
    "\<forall>P. unreadCount room' P =
             (if m_readBy msg P = Some False
              then Some ((case unreadCount room P of None \<Rightarrow> 0 | Some n \<Rightarrow> n) + 1)
              else unreadCount room P)"
    by blast
  from e(5) assms(2) have "m_readBy msg S = Some True" by simp
  with e(8) have "unreadCount room' S = unreadCount room S" by simp
  with e show "\<exists>msg s' room'.
       sendMessage s mid now R S txt = Inr (mid, s') \<and>
       messages s' R = messages s R @ [(mid, msg)] \<and>
       m_text msg = txt \<and> m_senderId msg = S \<and>
       (\<forall>P. m_readBy msg P = (if P \<in> set (participants room) then Some (P = S) else None)) \<and>
       getDoc (chatRooms s') R = Some room' \<and>
       lastMessage room' = Some \<lparr>lm_text = Some (m_text msg), lm_timestamp = Some (m_timestamp msg),
                                 lm_senderId = Some (m_senderId msg), lm_readBy = m_readBy msg\<rparr> \<and>
       (\<forall>P. unreadCount room' P =
             (if m_readBy msg P = Some False
              then Some ((case unreadCount room P of None \<Rightarrow> 0 | Some n \<Rightarrow> n) + 1)
              else unreadCount room P)) \<and>
       unreadCount room' S = unreadCount room S"
    by blast
next
  show "R \<noteq> [] \<and> S \<noteq> [] \<and> trim txt \<noteq> [] \<longrightarrow>
     (\<exists>msg s' room'.
       sendMessage_presence s mid now R S txt = Inr ((mid, msg), s') \<and>
       messages s' R = messages s R @ [(mid, msg)] \<and>
       m_text msg = trim txt \<and> m_senderId msg = S \<and>
       (\<forall>P. m_readBy msg P = (if P \<in> set (participants room)
                                then Some (P = S \<or> activeUsers room P = Some True) else None)) \<and>
       getDoc (chatRooms s') R = Some room' \<and>
       lastMessage room' = Some \<lparr>lm_text = Some (m_text msg), lm_timestamp = Some (m_timestamp msg),
                                 lm_senderId = Some (m_senderId msg), lm_readBy = m_readBy msg\<rparr> \<and>
       (\<forall>P. unreadCount room' P =
             (if m_readBy msg P = Some False
              then Some ((case unreadCount room P of None \<Rightarrow> 0 | Some n \<Rightarrow> n) + 1)
              else if m_readBy msg P = Some True then Some 0
              else unreadCount room P)) \<and>
       unreadCount room' S = Some 0)"
  proof
    assume "R \<noteq> [] \<and> S \<noteq> [] \<and> trim txt \<noteq> []"
    then have v: "R \<noteq> []" "S \<noteq> []" "trim txt \<noteq> []" by simp_all
    from sendMessage_presence_effect [OF assms(1) assms(3) v assms(4), of now]
    obtain msg s' room' where e:
      "sendMessage_presence s mid now R S txt = Inr ((mid, msg), s')"
      "messages s' R = messages s R @ [(mid, msg)]"
      "m_text msg = trim txt" "m_senderId msg = S"
      "\<forall>P. m_readBy msg P = (if P \<in> set (participants room)
                                then Some (P = S \<or> activeUsers room P = Some True) else None)"
      "getDoc (chatRooms s') R = Some room'"
      "lastMessage room' = Some \<lparr>lm_text = Some (m_text msg), lm_timestamp = Some (m_timestamp msg),
                                 lm_senderId = Some (m_senderId msg), lm_readBy = m_readBy msg\<rparr>"
      "\<forall>P. unreadCount room' P =
             (if m_readBy msg P = Some False
              then Some ((case unreadCount room P of None \<Rightarrow> 0 | Some n \<Rightarrow> n) + 1)
              else if m_readBy msg P = Some True then Some 0
              else unreadCount room P)"
      by blast
    from e(5) assms(2) have "m_readBy msg S = Some True" by simp
    with e(8) have "unreadCount room' S = Some 0" by simp
    with e show "\<exists>msg s' room'.
       sendMessage_presence s mid now R S txt = Inr ((mid, msg), s') \<and>
       messages s' R = messages s R @ [(mid, msg)] \<and>
       m_text msg = trim txt \<and> m_senderId msg = S \<and>
       (\<forall>P. m_readBy msg P = (if P \<in> set (participants room)
                                then Some (P = S \<or> activeUsers room P = Some True) else None)) \<and>
       getDoc (chatRooms s') R = Some room' \<and>
       lastMessage room' = Some \<lparr>lm_text = Some (m_text msg), lm_timestamp = Some (m_timestamp msg),
                                 lm_senderId = Some (m_senderId msg), lm_readBy = m_readBy msg\<rparr> \<and>
       (\<forall>P. unreadCount room' P =
             (if m_readBy msg P = Some False
              then Some ((case unreadCount room P of None \<Rightarrow> 0 | Some n \<Rightarrow> n) + 1)
              else if m_readBy msg P = Some True then Some 0
              else unreadCount room P)) \<and>
       unreadCount room' S = Some 0"
      by blast
  qed
qed

text \<open>
  The theorem at the example room: alice sends "hi" to bob, who is not flagged active.
\<close>

theorem sendMessage_batch_witness:
  "getDoc (chatRooms exampleDb) ''r1'' = Some exampleRoom \<and>
   ''alice'' \<in> set (participants exampleRoom) \<and>
   ''m1'' \<notin> fst ` set (messages exampleDb ''r1'') \<and>
   list_all plainId (participants exampleRoom) \<and>
   (\<exists>msg s' room'.
       sendMessage exampleDb ''m1'' 5 ''r1'' ''alice'' ''hi'' = Inr (''m1'', s') \<and>
       messages s' ''r1'' = [(''m1'', msg)] \<and>
       m_readBy msg ''alice'' = Some True \<and> m_readBy msg ''bob'' = Some False \<and>
       getDoc (chatRooms s') ''r1'' = Some room' \<and>
       unreadCount room' ''bob'' = Some 1 \<and> unreadCount room' ''alice'' = Some 2) \<and>
   (\<exists>msg s' room'.
       sendMessage_presence exampleDb ''m1'' 5 ''r1'' ''alice'' ''hi'' = Inr ((''m1'', msg), s') \<and>
       messages s' ''r1'' = [(''m1'', msg)] \<and>
       m_readBy msg ''alice'' = Some True \<and> m_readBy msg ''bob'' = Some False \<and>
       getDoc (chatRooms s') ''r1'' = Some room' \<and>
       unreadCount room' ''bob'' = Some 1 \<and> unreadCount room' ''alice'' = Some 0)"
proof -
  have h1: "getDoc (chatRooms exampleDb) ''r1'' = Some exampleRoom"
    by (simp add: exampleDb_def getDoc_def)
  have h2: "''alice'' \<in> set (participants exampleRoom)"
    by (simp add: exampleRoom_def)
  have h3: "''m1'' \<notin> fst ` set (messages exampleDb ''r1'')"
    by (simp add: exampleDb_def)
  have h4: "list_all plainId (participants exampleRoom)"
    by (simp add: exampleRoom_def plainId_def validFieldName_def reservedPathChar_def)
  have t: "trim ''hi'' \<noteq> []"
    by (simp add: trim_def isWhiteSpace_def)
  have p: "participants exampleRoom = [''alice'', ''bob'']"
    "unreadCount exampleRoom ''bob'' = Some 0" "unreadCount exampleRoom ''alice'' = Some 2"
    "activeUsers exampleRoom ''bob'' = None" "messages exampleDb ''r1'' = []"
    by (simp_all add: exampleRoom_def exampleDb_def)
  from sendMessage_batch [OF h1 h2 h3 h4, of 5 "''hi''"] t
  obtain msg s' room' msg2 s2 room2 where
    a: "sendMessage exampleDb ''m1'' 5 ''r1'' ''alice'' ''hi'' = Inr (''m1'', s')"
      "messages s' ''r1'' = messages exampleDb ''r1'' @ [(''m1'', msg)]"
      "\<forall>P. m_readBy msg P = (if P \<in> set (participants exampleRoom) then Some (P = ''alice'') else None)"
      "getDoc (chatRooms s') ''r1'' = Some room'"
      "\<forall>P. unreadCount room' P =
             (if m_readBy msg P = Some False
              then Some ((case unreadCount exampleRoom P of None \<Rightarrow> 0 | Some n \<Rightarrow> n) + 1)
              else unreadCount exampleRoom P)"
    and b: "sendMessage_presence exampleDb ''m1'' 5 ''r1'' ''alice'' ''hi'' = Inr ((''m1'', msg2), s2)"
      "messages s2 ''r1'' = messages exampleDb ''r1'' @ [(''m1'', msg2)]"
      "\<forall>P. m_readBy msg2 P = (if P \<in> set (participants exampleRoom)
                                then Some (P = ''alice'' \<or> activeUsers exampleRoom P = Some True) else None)"
      "getDoc (chatRooms s2) ''r1'' = Some room2"
      "\<forall>P. unreadCount room2 P =
             (if m_readBy msg2 P = Some False
              then Some ((case unreadCount exampleRoom P of None \<Rightarrow> 0 | Some n \<Rightarrow> n) + 1)
              else if m_readBy msg2 P = Some True then Some 0
              else unreadCount exampleRoom P)"
    by auto
  from a(3) have ra: "m_readBy msg ''alice'' = Some True" "m_readBy msg ''bob'' = Some False"
    by (simp_all add: p)
  from b(3) have rb: "m_readBy msg2 ''alice'' = Some True" "m_readBy msg2 ''bob'' = Some False"
    by (simp_all add: p)
  from a(5) ra have ua: "unreadCount room' ''bob'' = Some 1" "unreadCount room' ''alice'' = Some 2"
    by (simp_all add: p)
  from b(5) rb have ub: "unreadCount room2 ''bob'' = Some 1" "unreadCount room2 ''alice'' = Some 0"
    by (simp_all add: p)
  from a(1,2,4) ra ua have A: "\<exists>msg s' room'.
       sendMessage exampleDb ''m1'' 5 ''r1'' ''alice'' ''hi'' = Inr (''m1'', s') \<and>
       messages s' ''r1'' = [(''m1'', msg)] \<and>
       m_readBy msg ''alice'' = Some True \<and> m_readBy msg ''bob'' = Some False \<and>
       getDoc (chatRooms s') ''r1'' = Some room' \<and>
       unreadCount room' ''bob'' = Some 1 \<and> unreadCount room' ''alice'' = Some 2"
    by (simp add: p)
  from b(1,2,4) rb ub have B: "\<exists>msg s' room'.
       sendMessage_presence exampleDb ''m1'' 5 ''r1'' ''alice'' ''hi'' = Inr ((''m1'', msg), s') \<and>
       messages s' ''r1'' = [(''m1'', msg)] \<and>
       m_readBy msg ''alice'' = Some True \<and> m_readBy msg ''bob'' = Some False \<and>
       getDoc (chatRooms s') ''r1'' = Some room' \<and>
       unreadCount room' ''bob'' = Some 1 \<and> unreadCount room' ''alice'' = Some 0"
    by (simp add: p)
  from h1 h2 h3 h4 A B show ?thesis by (intro conjI)
qed

text \<open>
  Claim C1 as stated fails in the first listing: alice, a participant, had two unread
  messages before she sent, the send succeeds, and she still has two afterwards; the claim
  says her counter ends at 0.
\<close>

theorem sendMessage_sender_counter_counterexample:
  "\<not> isl (sendMessage exampleDb ''m1'' 5 ''r1'' ''alice'' ''hi'') \<and>
   ''alice'' \<in> set (participants exampleRoom) \<and>
   list_all plainId (participants exampleRoom) \<and>
   getDoc (chatRooms exampleDb) ''r1'' = Some exampleRoom \<and>
   unreadCount exampleRoom ''alice'' = Some 2 \<and>
   getDoc (chatRooms (snd (projr (sendMessage exampleDb ''m1'' 5 ''r1'' ''alice'' ''hi''))))
     ''r1'' \<noteq> None \<and>
   unreadCount
     (the (getDoc (chatRooms (snd (projr (sendMessage exampleDb ''m1'' 5 ''r1'' ''alice'' ''hi''))))
             ''r1'')) ''alice'' = Some 2"
proof -
  have h1: "getDoc (chatRooms exampleDb) ''r1'' = Some exampleRoom"
    by (simp add: exampleDb_def getDoc_def)
  have h3: "''m1'' \<notin> fst ` set (messages exampleDb ''r1'')"
    by (simp add: exampleDb_def)
  have h4: "list_all plainId (participants exampleRoom)"
    by (simp add: exampleRoom_def plainId_def validFieldName_def reservedPathChar_def)
  have p: "''alice'' \<in> set (participants exampleRoom)"
    "unreadCount exampleRoom ''alice'' = Some 2"
    by (simp_all add: exampleRoom_def)
  from sendMessage_effect [OF h1 h3 h4, of 5 "''alice''" "''hi''"]
  obtain msg s' room' where
    e: "sendMessage exampleDb ''m1'' 5 ''r1'' ''alice'' ''hi'' = Inr (''m1'', s')"
      "messages s' ''r1'' = messages exampleDb ''r1'' @ [(''m1'', msg)]"
      "m_text msg = ''hi''" "m_senderId msg = ''alice''" "m_timestamp msg = 5"
      "\<forall>P. m_readBy msg P = (if P \<in> set (participants exampleRoom) then Some (P = ''alice'') else None)"
      "getDoc (chatRooms s') ''r1'' = Some room'"
      "lastMessage room' = Some \<lparr>lm_text = Some (m_text msg), lm_timestamp = Some (m_timestamp msg),
                                 lm_senderId = Some (m_senderId msg), lm_readBy = m_readBy msg\<rparr>"
      "\<forall>P. unreadCount room' P =
             (if m_readBy msg P = Some False
              then Some ((case unreadCount exampleRoom P of None \<Rightarrow> 0 | Some n \<Rightarrow> n) + 1)
              else unreadCount exampleRoom P)"
    by (elim exE conjE) (rule that)
  from e(6) p(1) have "m_readBy msg ''alice'' = Some True" by simp
  with e(9) p(2) have "unreadCount room' ''alice'' = Some 2" by simp
  with e(1,7) h1 h4 p show ?thesis by simp
qed

text \<open>
  What the plain ids are needed for. Bob's id here has a dot, so the key
  \<open>unreadCount.b.ob\<close> is the path of the field \<open>ob\<close> in a map \<open>b\<close> inside \<open>unreadCount\<close>: the
  send succeeds and puts 1 there, and the entry \<open>unreadCount['b.ob']\<close>, which is the one
  \<open>createPrivateChat\<close> made and \<open>markMessagesAsRead\<close> resets, still holds what it held.
\<close>

lemma sendMessage_dotted_id:
  "\<not> isl (sendMessage dottedDb ''m1'' 5 ''r5'' ''alice'' ''hi'') \<and>
   getDoc (chatRooms dottedDb) ''r5'' = Some dottedRoom \<and>
   unreadCount dottedRoom ''b.ob'' = Some 1 \<and>
   getDoc (chatRooms (snd (projr (sendMessage dottedDb ''m1'' 5 ''r5'' ''alice'' ''hi''))))
     ''r5'' \<noteq> None \<and>
   unreadCount
     (the (getDoc (chatRooms (snd (projr (sendMessage dottedDb ''m1'' 5 ''r5'' ''alice'' ''hi''))))
             ''r5'')) ''b.ob'' = Some 1 \<and>
   unreadCountNested
     (the (getDoc (chatRooms (snd (projr (sendMessage dottedDb ''m1'' 5 ''r5'' ''alice'' ''hi''))))
             ''r5'')) [''b'', ''ob''] = Some 1"
  by (simp add: sendMessage_def dottedDb_def dottedRoom_def getDoc_def
      updateDoc_def Let_def assign_def fieldPathFromDotSeparatedString_def validFieldName_def
      reservedPathChar_def applyFieldWrites_def writeField_def fieldValue_def overlaps_def)

section \<open>Deriving a username\<close>

text \<open>
  The loop returns the first candidate that is not taken: the name itself for counter 0,
  the name followed by the counter otherwise.
\<close>

lemma probeUsername_least:
  "tempUsername = (if counter = 0 then uname else uname @ showNat counter) \<Longrightarrow>
   \<exists>k\<ge>counter.
     probeUsername s uname counter tempUsername = (if k = 0 then uname else uname @ showNat k) \<and>
     \<not> isUsernameTaken s (if k = 0 then uname else uname @ showNat k) \<and>
     (\<forall>j. counter \<le> j \<and> j < k \<longrightarrow> isUsernameTaken s (if j = 0 then uname else uname @ showNat j))"
proof (induction s uname counter tempUsername rule: probeUsername.induct)
  case (1 s uname counter tempUsername)
  show ?case
  proof (cases "isUsernameTaken s tempUsername")
    case False
    with "1.prems" show ?thesis
      by (intro exI [of _ counter]) (auto simp: probeUsername.simps [of s uname counter])
  next
    case True
    from "1.IH" [OF True] obtain k where k: "Suc counter \<le> k"
      "probeUsername s uname (Suc counter) (uname @ showNat (Suc counter)) =
         (if k = 0 then uname else uname @ showNat k)"
      "\<not> isUsernameTaken s (if k = 0 then uname else uname @ showNat k)"
      "\<forall>j. Suc counter \<le> j \<and> j < k \<longrightarrow> isUsernameTaken s (if j = 0 then uname else uname @ showNat j)"
      by auto
    have "\<forall>j. counter \<le> j \<and> j < k \<longrightarrow> isUsernameTaken s (if j = 0 then uname else uname @ showNat j)"
    proof (intro allI impI)
      fix j assume j: "counter \<le> j \<and> j < k"
      show "isUsernameTaken s (if j = 0 then uname else uname @ showNat j)"
      proof (cases "j = counter")
        case True
        with \<open>isUsernameTaken s tempUsername\<close> "1.prems" show ?thesis
          by (auto split: if_splits)
      next
        case False
        with j have "Suc counter \<le> j \<and> j < k" by simp
        with k(4) show ?thesis by blast
      qed
    qed
    with k True show ?thesis
      by (intro exI [of _ k]) (simp add: probeUsername.simps [of s uname counter])
  qed
qed

lemma getDoc_append_fresh: "k \<notin> fst ` set c \<Longrightarrow> getDoc (c @ [(k, d)]) k' = (if k' = k then Some d else getDoc c k')"
  by (auto simp: getDoc_def map_add_def map_of_eq_None_iff [symmetric] split: option.splits)

lemma getDoc_setDocMerge:
  "getDoc (setDocMerge k d c) k' =
     (if k' = k then Some (case getDoc c k of None \<Rightarrow> d | Some old \<Rightarrow> mergeProfile d old)
      else getDoc c k')"
proof (cases "k \<in> fst ` set c")
  case True
  then obtain old where "getDoc c k = Some old"
    by (cases "map_of c k") (auto simp: getDoc_def map_of_eq_None_iff)
  with True show ?thesis by (simp add: setDocMerge_def getDoc_updateDoc)
next
  case False
  then have "getDoc c k = None" by (simp add: getDoc_def map_of_eq_None_iff)
  with False show ?thesis by (simp add: setDocMerge_def getDoc_append_fresh)
qed

lemma taken_after_setDocMerge:
  "username d = Some u \<Longrightarrow> isUsernameTaken (s\<lparr>users := setDocMerge k d (users s)\<rparr>) u"
proof -
  assume u: "username d = Some u"
  obtain p where "getDoc (setDocMerge k d (users s)) k = Some p" "username p = Some u"
    using u by (auto simp: getDoc_setDocMerge mergeProfile_def mergeField_def split: option.splits)
  then have "(k, p) \<in> set (setDocMerge k d (users s))"
    by (auto simp: getDoc_def dest: map_of_SomeD)
  with \<open>username p = Some u\<close> show ?thesis
    by (auto simp: isUsernameTaken_def filter_empty_conv)
qed

text \<open>What \<open>upsertProfile\<close> writes when it derives the username from the email.\<close>

lemma upsertProfile_derives:
  assumes "generateQRCode userId = Some qr"
    and "\<not> present (username dat)"
    and "email dat = Some e" and "e \<noteq> []"
  shows "\<exists>ret. upsertProfile generateQRCode now s userId dat =
            Inr (ret, s\<lparr>users := setDocMerge userId ret (users s)\<rparr>) \<and>
          username ret =
            Some (probeUsername s (takeWhile (\<lambda>c. c \<noteq> CHR ''@'') e) 0 (takeWhile (\<lambda>c. c \<noteq> CHR ''@'') e))"
  using assms by (simp add: upsertProfile_def Let_def)

lemma stored_username:
  "username ret = Some u \<Longrightarrow>
   \<exists>p. getDoc (users (s\<lparr>users := setDocMerge userId ret (users s)\<rparr>)) userId = Some p \<and> username p = Some u"
  by (auto simp: getDoc_setDocMerge mergeProfile_def mergeField_def split: option.splits)

lemma probe_from_zero:
  "\<exists>k. probeUsername s b 0 b = (if k = 0 then b else b @ showNat k) \<and>
     \<not> isUsernameTaken s (probeUsername s b 0 b) \<and>
     (\<forall>j. j < k \<longrightarrow> isUsernameTaken s (if j = 0 then b else b @ showNat j))"
proof -
  have "b = (if (0::nat) = 0 then b else b @ showNat 0)" by simp
  from probeUsername_least [where s = s, OF this] obtain k where k:
    "probeUsername s b 0 b = (if k = 0 then b else b @ showNat k)"
    "\<not> isUsernameTaken s (if k = 0 then b else b @ showNat k)"
    "\<forall>j. 0 \<le> j \<and> j < k \<longrightarrow> isUsernameTaken s (if j = 0 then b else b @ showNat j)"
    by blast
  from k(3) have "\<forall>j. j < k \<longrightarrow> isUsernameTaken s (if j = 0 then b else b @ showNat j)"
    by simp
  with k(1,2) show ?thesis
    by (intro exI [of _ k]) (simp only: simp_thms)
qed

text \<open>
  Claim C9. Let the QR library succeed, let \<open>data.username\<close> be absent (or empty) and
  \<open>data.email\<close> be present. Then \<open>upsertProfile\<close> succeeds and the stored username is the
  email's local part (the text before the first \<open>@\<close>) when no profile uses it, and
  otherwise the local part followed by the smallest integer \<open>k \<ge> 1\<close> whose candidate is not
  taken. Consequently a profile created next, under another id and with the same email,
  gets a different username, and the first profile keeps its own.
\<close>

theorem upsertProfile_derived_username:
  assumes q: "generateQRCode userId = Some qr"
    and nu: "\<not> present (username dat)"
    and em: "email dat = Some e" "e \<noteq> []"
  shows "\<exists>ret s' p u.
     upsertProfile generateQRCode now s userId dat = Inr (ret, s') \<and>
     getDoc (users s') userId = Some p \<and> username p = Some u \<and>
     (if \<not> isUsernameTaken s (takeWhile (\<lambda>c. c \<noteq> CHR ''@'') e)
      then u = takeWhile (\<lambda>c. c \<noteq> CHR ''@'') e
      else \<exists>k\<ge>1. u = takeWhile (\<lambda>c. c \<noteq> CHR ''@'') e @ showNat k \<and>
             \<not> isUsernameTaken s u \<and>
             (\<forall>j. 1 \<le> j \<and> j < k \<longrightarrow>
                  isUsernameTaken s (takeWhile (\<lambda>c. c \<noteq> CHR ''@'') e @ showNat j))) \<and>
     (\<forall>userId2 dat2 now2.
        userId2 \<noteq> userId \<and> generateQRCode userId2 \<noteq> None \<and>
        \<not> present (username dat2) \<and> email dat2 = Some e \<longrightarrow>
        (\<exists>ret2 s2 p1 p2 u2.
           upsertProfile generateQRCode now2 s' userId2 dat2 = Inr (ret2, s2) \<and>
           getDoc (users s2) userId = Some p1 \<and> username p1 = Some u \<and>
           getDoc (users s2) userId2 = Some p2 \<and> username p2 = Some u2 \<and> u2 \<noteq> u))"
proof -
  define b where "b = takeWhile (\<lambda>c. c \<noteq> CHR ''@'') e"
  define u where "u = probeUsername s b 0 b"
  from upsertProfile_derives [where generateQRCode = generateQRCode and userId = userId
      and now = now and s = s, OF q nu em]
  obtain ret where ret: "upsertProfile generateQRCode now s userId dat =
            Inr (ret, s\<lparr>users := setDocMerge userId ret (users s)\<rparr>)" "username ret = Some u"
    by (auto simp: b_def u_def)
  define s' where "s' = s\<lparr>users := setDocMerge userId ret (users s)\<rparr>"
  from stored_username [where s = s and userId = userId, OF ret(2)]
  obtain p where p: "getDoc (users s') userId = Some p" "username p = Some u"
    by (auto simp: s'_def)
  have least: "if \<not> isUsernameTaken s b then u = b
      else \<exists>k\<ge>1. u = b @ showNat k \<and> \<not> isUsernameTaken s u \<and>
             (\<forall>j. 1 \<le> j \<and> j < k \<longrightarrow> isUsernameTaken s (b @ showNat j))"
  proof -
    from probe_from_zero [of s b] obtain k where k:
      "u = (if k = 0 then b else b @ showNat k)" "\<not> isUsernameTaken s u"
      "\<forall>j. j < k \<longrightarrow> isUsernameTaken s (if j = 0 then b else b @ showNat j)"
      by (auto simp: u_def)
    show ?thesis
    proof (cases "isUsernameTaken s b")
      case False
      with k(3) have "k = 0" by (cases "k = 0") auto
      with k(1) False show ?thesis by simp
    next
      case True
      with k(1,2) have k1: "1 \<le> k" by (cases "k = 0") auto
      moreover from k1 k(1) have "u = b @ showNat k" by simp
      moreover have "\<forall>j. 1 \<le> j \<and> j < k \<longrightarrow> isUsernameTaken s (b @ showNat j)"
      proof (intro allI impI)
        fix j assume "1 \<le> j \<and> j < k"
        with k(3) [rule_format, of j] show "isUsernameTaken s (b @ showNat j)" by simp
      qed
      ultimately show ?thesis using True k(2) by auto
    qed
  qed
  have second: "\<exists>ret2 s2 p1 p2 u2.
           upsertProfile generateQRCode now2 s' userId2 dat2 = Inr (ret2, s2) \<and>
           getDoc (users s2) userId = Some p1 \<and> username p1 = Some u \<and>
           getDoc (users s2) userId2 = Some p2 \<and> username p2 = Some u2 \<and> u2 \<noteq> u"
    if h: "userId2 \<noteq> userId \<and> generateQRCode userId2 \<noteq> None \<and>
        \<not> present (username dat2) \<and> email dat2 = Some e"
    for userId2 dat2 now2
  proof -
    from h obtain qr2 where q2: "generateQRCode userId2 = Some qr2" by auto
    from h have nu2: "\<not> present (username dat2)" and em2: "email dat2 = Some e" by simp_all
    define u2 where "u2 = probeUsername s' b 0 b"
    from upsertProfile_derives [where generateQRCode = generateQRCode and userId = userId2
        and now = now2 and s = s', OF q2 nu2 em2 em(2)]
    obtain ret2 where ret2: "upsertProfile generateQRCode now2 s' userId2 dat2 =
            Inr (ret2, s'\<lparr>users := setDocMerge userId2 ret2 (users s')\<rparr>)" "username ret2 = Some u2"
      by (auto simp: b_def u2_def)
    from stored_username [where s = s' and userId = userId2, OF ret2(2)]
    obtain p2 where p2: "getDoc (users (s'\<lparr>users := setDocMerge userId2 ret2 (users s')\<rparr>)) userId2 = Some p2"
      "username p2 = Some u2" by auto
    from h have "userId \<noteq> userId2" by auto
    with p(1) have p1: "getDoc (users (s'\<lparr>users := setDocMerge userId2 ret2 (users s')\<rparr>)) userId = Some p"
      by (simp add: getDoc_setDocMerge)
    from taken_after_setDocMerge [where s = s and k = userId, OF ret(2)] have "isUsernameTaken s' u"
      by (simp add: s'_def)
    moreover from probe_from_zero [of s' b] have "\<not> isUsernameTaken s' u2"
      by (auto simp: u2_def)
    ultimately have "u2 \<noteq> u" by auto
    with ret2(1) p1 p(2) p2 show ?thesis by blast
  qed
  from ret(1) p least second show ?thesis
    unfolding b_def [symmetric] s'_def [symmetric] by blast
qed

text \<open>
  The theorem at the example store: the local part \<open>bob\<close> is taken, \<open>bob1\<close> is not.
\<close>

lemma showNat_1: "showNat 1 = ''1''"
  by code_simp

theorem upsertProfile_derived_username_witness:
  "exampleQRCode ''u1'' = Some ''qr:u1'' \<and>
   \<not> present (username registration) \<and>
   email registration = Some ''bob@x.com'' \<and> ''bob@x.com'' \<noteq> [] \<and>
   isUsernameTaken usersDb ''bob'' \<and>
   (\<exists>ret s' p.
      upsertProfile exampleQRCode 7 usersDb ''u1'' registration = Inr (ret, s') \<and>
      getDoc (users s') ''u1'' = Some p \<and> username p = Some ''bob1'')"
proof -
  have q: "exampleQRCode ''u1'' = Some ''qr:u1''" by (simp add: exampleQRCode_def)
  have nu: "\<not> present (username registration)" by (simp add: registration_def present_def)
  have em: "email registration = Some ''bob@x.com''" "''bob@x.com'' \<noteq> []"
    by (simp_all add: registration_def)
  have b: "takeWhile (\<lambda>c. c \<noteq> CHR ''@'') ''bob@x.com'' = ''bob''" by simp
  have t0: "isUsernameTaken usersDb ''bob''"
    by (simp add: isUsernameTaken_def usersDb_def bobProfile_def)
  have t1: "\<not> isUsernameTaken usersDb (''bob'' @ showNat 1)"
    unfolding showNat_1 by (simp add: isUsernameTaken_def usersDb_def bobProfile_def)
  from upsertProfile_derived_username [where generateQRCode = exampleQRCode and userId = "''u1''"
      and now = 7 and s = usersDb, OF q nu em]
  obtain ret s' p u k where r:
    "upsertProfile exampleQRCode 7 usersDb ''u1'' registration = Inr (ret, s')"
    "getDoc (users s') ''u1'' = Some p" "username p = Some u"
    "1 \<le> k" "u = ''bob'' @ showNat k"
    "\<forall>j. 1 \<le> j \<and> j < k \<longrightarrow> isUsernameTaken usersDb (''bob'' @ showNat j)"
    unfolding b using t0 by (auto simp only: if_False simp_thms)
  have "k = 1"
  proof (rule ccontr)
    assume "k \<noteq> 1"
    with r(4) have "1 \<le> (1::nat) \<and> 1 < k" by simp
    with r(6) have "isUsernameTaken usersDb (''bob'' @ showNat 1)" by blast
    with t1 show False by simp
  qed
  with r(5) have "u = ''bob'' @ showNat 1" by (simp only:)
  then have "u = ''bob1''" by (simp only: showNat_1 append.simps)
  with r(1,2,3) q nu em t0 show ?thesis by blast
qed

section \<open>Marking messages as read\<close>

text \<open>
  Updating every document of a snapshot through its reference changes exactly the
  documents that match the query, when the ids of the collection are distinct.
\<close>

lemma updateDoc_idem: "(\<And>d. f (f d) = f d) \<Longrightarrow> updateDoc k f (updateDoc k f c) = updateDoc k f c"
  by (induction c) (auto simp: updateDoc_def)

lemma fold_updateDoc:
  assumes "\<And>d. f (f d) = f d"
  shows "fold (\<lambda>(k, m) c. updateDoc k f c) us c =
         map (\<lambda>(k, d). if k \<in> fst ` set us then (k, f d) else (k, d)) c"
proof (induction us arbitrary: c)
  case Nil
  then show ?case by simp
next
  case (Cons u us)
  obtain k m where u: "u = (k, m)" by (cases u)
  show ?case
    by (simp add: u Cons.IH) (auto simp: updateDoc_def assms)
qed

lemma key_in_filter:
  "distinct (map fst c) \<Longrightarrow> (k, d) \<in> set c \<Longrightarrow> k \<in> fst ` set (filter P c) \<longleftrightarrow> P (k, d)"
  by (force dest: eq_key_imp_eq_value)

lemma update_matching:
  assumes "\<And>d. f (f d) = f d" and "distinct (map fst c)"
  shows "fold (\<lambda>(k, m) c. updateDoc k f c) (filter P c) c =
         map (\<lambda>(k, d). (k, if P (k, d) then f d else d)) c"
  unfolding fold_updateDoc [of f, OF assms(1)]
  using key_in_filter [OF assms(2)] by (intro map_cong) auto

lemma markRead_idem: "markRead u (markRead u m) = markRead u m"
  by (simp add: markRead_def)

lemma resetUnread_idem: "resetUnread u (resetUnread u r) = resetUnread u r"
  by (cases "lastMessage r") (simp_all add: resetUnread_def setLastMessageReadBy_def)

lemma resetUnread_presence_idem:
  "resetUnread_presence u (resetUnread_presence u r) = resetUnread_presence u r"
  by (cases "lastMessage r") (simp_all add: resetUnread_presence_def setLastMessageReadBy_def)

lemma markMessagesAsRead_closed:
  assumes "getDoc (chatRooms s) R = Some room" and "distinct (map fst (messages s R))"
  shows "markMessagesAsRead s R X =
     Inr (s\<lparr>messages := (messages s)(R :=
              map (\<lambda>(mid, m). (mid, if m_readBy m X = Some False then markRead X m else m))
                (messages s R)),
            chatRooms := updateDoc R (resetUnread X) (chatRooms s)\<rparr>)"
  using assms(1) update_matching [of "markRead X" "messages s R"
      "\<lambda>(mid, m). m_readBy m X = Some False", OF markRead_idem assms(2)]
  by (simp add: markMessagesAsRead_def Let_def case_prod_unfold)

lemma markMessagesAsRead_presence_closed:
  assumes "getDoc (chatRooms s) R = Some room" and "distinct (map fst (messages s R))"
  shows "markMessagesAsRead_presence nm s R X =
     Inr (s\<lparr>messages := (messages s)(R :=
              map (\<lambda>(mid, m). (mid, if (case m_readBy m X of None \<Rightarrow> nm | Some b \<Rightarrow> b \<noteq> True)
                                      then markRead X m else m))
                (messages s R)),
            chatRooms := updateDoc R (resetUnread_presence X) (chatRooms s)\<rparr>)"
  using assms(1) update_matching [of "markRead X" "messages s R"
      "\<lambda>(mid, m). case m_readBy m X of None \<Rightarrow> nm | Some b \<Rightarrow> b \<noteq> True", OF markRead_idem assms(2)]
  by (simp add: markMessagesAsRead_presence_def Let_def case_prod_unfold)


lemma mark_twice:
  "map (\<lambda>(mid, m). (mid, if m_readBy m X = Some False \<or> nm \<and> m_readBy m X = None
                             then markRead X m else m))
     (map (\<lambda>(mid, m). (mid, if m_readBy m X = Some False \<or> nm \<and> m_readBy m X = None
                             then markRead X m else m)) c) =
   map (\<lambda>(mid, m). (mid, if m_readBy m X = Some False \<or> nm \<and> m_readBy m X = None
                             then markRead X m else m)) c"
  by (induction c) (auto simp: markRead_def)

lemma mark_keys:
  "map fst (map (\<lambda>(mid, m). (mid, g m)) c) = map fst c"
  by (induction c) auto

text \<open>
  Claim C2, as the code has it. Let room \<open>R\<close> exist (and the message ids of the room be
  distinct). \<open>markMessagesAsRead\<close> of the first listing sets \<open>readBy[X]\<close> to true on every
  message whose entry for \<open>X\<close> is false and leaves every other message as it is, also a
  message that has no entry for \<open>X\<close>; the second listing does the same, and marks the
  messages without an entry exactly when the store's \<open>!=\<close> filter returns documents that
  lack the field (\<open>nm\<close>). In the same batch \<open>unreadCount[X]\<close> becomes 0 and
  \<open>lastMessage.readBy[X]\<close> true (and \<open>activeUsers[X]\<close> true in the second listing).
  Calling the operation again on the resulting store returns the same store.
\<close>

theorem markMessagesAsRead_idempotent:
  assumes ex: "getDoc (chatRooms s) R = Some room"
    and d: "distinct (map fst (messages s R))"
  shows "(\<exists>s' room'.
      markMessagesAsRead s R X = Inr s' \<and>
      messages s' R =
        map (\<lambda>(mid, m). (mid, if m_readBy m X = Some False then markRead X m else m))
          (messages s R) \<and>
      getDoc (chatRooms s') R = Some room' \<and>
      unreadCount room' X = Some 0 \<and>
      map_option (\<lambda>l. lm_readBy l X) (lastMessage room') = Some (Some True) \<and>
      markMessagesAsRead s' R X = Inr s') \<and>
    (\<exists>s' room'.
      markMessagesAsRead_presence nm s R X = Inr s' \<and>
      messages s' R =
        map (\<lambda>(mid, m). (mid, if m_readBy m X = Some False \<or> nm \<and> m_readBy m X = None
                                then markRead X m else m))
          (messages s R) \<and>
      getDoc (chatRooms s') R = Some room' \<and>
      unreadCount room' X = Some 0 \<and>
      map_option (\<lambda>l. lm_readBy l X) (lastMessage room') = Some (Some True) \<and>
      activeUsers room' X = Some True \<and>
      markMessagesAsRead_presence nm s' R X = Inr s')"
proof (intro conjI)
  define g where "g = (\<lambda>(mid :: doc_id, m). (mid, if m_readBy m X = Some False \<or> False \<and> m_readBy m X = None
                                then markRead X m else m))"
  define s' where "s' = s\<lparr>messages := (messages s)(R := map g (messages s R)),
                          chatRooms := updateDoc R (resetUnread X) (chatRooms s)\<rparr>"
  have 1: "markMessagesAsRead s R X = Inr s'"
    using markMessagesAsRead_closed [OF ex d, of X] by (simp add: s'_def g_def)
  have m: "messages s' R = map g (messages s R)" by (simp add: s'_def)
  have r: "getDoc (chatRooms s') R = Some (resetUnread X room)"
    by (simp add: s'_def getDoc_updateDoc ex)
  have d': "distinct (map fst (messages s' R))"
    using d unfolding m g_def by (simp only: mark_keys)
  have "map g (map g (messages s R)) = map g (messages s R)"
    unfolding g_def by (rule mark_twice)
  then have gg: "map (g \<circ> g) (messages s R) = map g (messages s R)" by simp
  have "markMessagesAsRead s' R X =
      Inr (s'\<lparr>messages := (messages s')(R := map g (messages s' R)),
              chatRooms := updateDoc R (resetUnread X) (chatRooms s')\<rparr>)"
    using markMessagesAsRead_closed [OF r d', of X] by (simp add: g_def)
  also have "s'\<lparr>messages := (messages s')(R := map g (messages s' R)),
              chatRooms := updateDoc R (resetUnread X) (chatRooms s')\<rparr> = s'"
    by (simp add: s'_def gg updateDoc_idem resetUnread_idem)
  finally have 2: "markMessagesAsRead s' R X = Inr s'" .
  have 3: "unreadCount (resetUnread X room) X = Some 0"
    "map_option (\<lambda>l. lm_readBy l X) (lastMessage (resetUnread X room)) = Some (Some True)"
    by (simp_all add: resetUnread_def setLastMessageReadBy_def split: option.splits)
  from 1 2 3 m r show "\<exists>s' room'.
      markMessagesAsRead s R X = Inr s' \<and>
      messages s' R =
        map (\<lambda>(mid, m). (mid, if m_readBy m X = Some False then markRead X m else m))
          (messages s R) \<and>
      getDoc (chatRooms s') R = Some room' \<and>
      unreadCount room' X = Some 0 \<and>
      map_option (\<lambda>l. lm_readBy l X) (lastMessage room') = Some (Some True) \<and>
      markMessagesAsRead s' R X = Inr s'"
    by (intro exI [of _ s'] exI [of _ "resetUnread X room"]) (simp add: g_def)
next
  define g where "g = (\<lambda>(mid :: doc_id, m). (mid, if m_readBy m X = Some False \<or> nm \<and> m_readBy m X = None
                                then markRead X m else m))"
  define s' where "s' = s\<lparr>messages := (messages s)(R := map g (messages s R)),
                          chatRooms := updateDoc R (resetUnread_presence X) (chatRooms s)\<rparr>"
  have c: "(case b of None \<Rightarrow> nm | Some v \<Rightarrow> v \<noteq> True) = (b = Some False \<or> nm \<and> b = None)"
    for b :: "bool option"
    by (cases b) auto
  have 1: "markMessagesAsRead_presence nm s R X = Inr s'"
    using markMessagesAsRead_presence_closed [OF ex d, of nm X] by (simp add: s'_def g_def c)
  have m: "messages s' R = map g (messages s R)" by (simp add: s'_def)
  have r: "getDoc (chatRooms s') R = Some (resetUnread_presence X room)"
    by (simp add: s'_def getDoc_updateDoc ex)
  have d': "distinct (map fst (messages s' R))"
    using d unfolding m g_def by (simp only: mark_keys)
  have "map g (map g (messages s R)) = map g (messages s R)"
    unfolding g_def by (rule mark_twice)
  then have gg: "map (g \<circ> g) (messages s R) = map g (messages s R)" by simp
  have "markMessagesAsRead_presence nm s' R X =
      Inr (s'\<lparr>messages := (messages s')(R := map g (messages s' R)),
              chatRooms := updateDoc R (resetUnread_presence X) (chatRooms s')\<rparr>)"
    using markMessagesAsRead_presence_closed [OF r d', of nm X] by (simp add: g_def c)
  also have "s'\<lparr>messages := (messages s')(R := map g (messages s' R)),
              chatRooms := updateDoc R (resetUnread_presence X) (chatRooms s')\<rparr> = s'"
    by (simp add: s'_def gg updateDoc_idem resetUnread_presence_idem)
  finally have 2: "markMessagesAsRead_presence nm s' R X = Inr s'" .
  have 3: "unreadCount (resetUnread_presence X room) X = Some 0"
    "map_option (\<lambda>l. lm_readBy l X) (lastMessage (resetUnread_presence X room)) = Some (Some True)"
    "activeUsers (resetUnread_presence X room) X = Some True"
    by (simp_all add: resetUnread_presence_def setLastMessageReadBy_def split: option.splits)
  from 1 2 3 m r show "\<exists>s' room'.
      markMessagesAsRead_presence nm s R X = Inr s' \<and>
      messages s' R =
        map (\<lambda>(mid, m). (mid, if m_readBy m X = Some False \<or> nm \<and> m_readBy m X = None
                                then markRead X m else m))
          (messages s R) \<and>
      getDoc (chatRooms s') R = Some room' \<and>
      unreadCount room' X = Some 0 \<and>
      map_option (\<lambda>l. lm_readBy l X) (lastMessage room') = Some (Some True) \<and>
      activeUsers room' X = Some True \<and>
      markMessagesAsRead_presence nm s' R X = Inr s'"
    by (intro exI [of _ s'] exI [of _ "resetUnread_presence X room"]) (simp add: g_def)
qed

text \<open>The theorem at the example group, for bob.\<close>

theorem markMessagesAsRead_idempotent_witness:
  "getDoc (chatRooms groupDb) ''g1'' = Some groupRoom \<and>
   distinct (map fst (messages groupDb ''g1'')) \<and>
   (\<exists>s' room'.
      markMessagesAsRead groupDb ''g1'' ''bob'' = Inr s' \<and>
      map (\<lambda>(mid, m). m_readBy m ''bob'') (messages s' ''g1'') = [Some True] \<and>
      getDoc (chatRooms s') ''g1'' = Some room' \<and>
      unreadCount room' ''bob'' = Some 0 \<and>
      markMessagesAsRead s' ''g1'' ''bob'' = Inr s') \<and>
   (\<exists>s' room'.
      markMessagesAsRead_presence False groupDb ''g1'' ''bob'' = Inr s' \<and>
      map (\<lambda>(mid, m). m_readBy m ''bob'') (messages s' ''g1'') = [Some True] \<and>
      getDoc (chatRooms s') ''g1'' = Some room' \<and>
      unreadCount room' ''bob'' = Some 0 \<and>
      activeUsers room' ''bob'' = Some True \<and>
      markMessagesAsRead_presence False s' ''g1'' ''bob'' = Inr s')"
proof -
  have h1: "getDoc (chatRooms groupDb) ''g1'' = Some groupRoom"
    by (simp add: groupDb_def getDoc_def)
  have h2: "distinct (map fst (messages groupDb ''g1''))"
    by (simp add: groupDb_def)
  have ms: "messages groupDb ''g1'' = [(''m0'', earlierMessage)]"
    "m_readBy earlierMessage ''bob'' = Some False"
    "m_readBy (markRead ''bob'' earlierMessage) ''bob'' = Some True"
    by (simp_all add: groupDb_def earlierMessage_def markRead_def)
  from markMessagesAsRead_idempotent [OF h1 h2, of "''bob''" False]
  obtain s' room' s2 room2 where
    a: "markMessagesAsRead groupDb ''g1'' ''bob'' = Inr s'"
      "messages s' ''g1'' =
        map (\<lambda>(mid, m). (mid, if m_readBy m ''bob'' = Some False then markRead ''bob'' m else m))
          (messages groupDb ''g1'')"
      "getDoc (chatRooms s') ''g1'' = Some room'"
      "unreadCount room' ''bob'' = Some 0"
      "markMessagesAsRead s' ''g1'' ''bob'' = Inr s'"
    and b: "markMessagesAsRead_presence False groupDb ''g1'' ''bob'' = Inr s2"
      "messages s2 ''g1'' =
        map (\<lambda>(mid, m). (mid, if m_readBy m ''bob'' = Some False \<or> False \<and> m_readBy m ''bob'' = None
                                then markRead ''bob'' m else m))
          (messages groupDb ''g1'')"
      "getDoc (chatRooms s2) ''g1'' = Some room2"
      "unreadCount room2 ''bob'' = Some 0"
      "activeUsers room2 ''bob'' = Some True"
      "markMessagesAsRead_presence False s2 ''g1'' ''bob'' = Inr s2"
    by blast
  from a(2) have ra: "map (\<lambda>(mid, m). m_readBy m ''bob'') (messages s' ''g1'') = [Some True]"
    by (simp add: ms)
  from b(2) have rb: "map (\<lambda>(mid, m). m_readBy m ''bob'') (messages s2 ''g1'') = [Some True]"
    by (simp add: ms)
  from a(1,3,4,5) ra have A: "\<exists>s' room'.
      markMessagesAsRead groupDb ''g1'' ''bob'' = Inr s' \<and>
      map (\<lambda>(mid, m). m_readBy m ''bob'') (messages s' ''g1'') = [Some True] \<and>
      getDoc (chatRooms s') ''g1'' = Some room' \<and>
      unreadCount room' ''bob'' = Some 0 \<and>
      markMessagesAsRead s' ''g1'' ''bob'' = Inr s'"
    by (intro exI [of _ s'] exI [of _ room']) (simp only: simp_thms)
  from b(1,3,4,5,6) rb have B: "\<exists>s' room'.
      markMessagesAsRead_presence False groupDb ''g1'' ''bob'' = Inr s' \<and>
      map (\<lambda>(mid, m). m_readBy m ''bob'') (messages s' ''g1'') = [Some True] \<and>
      getDoc (chatRooms s') ''g1'' = Some room' \<and>
      unreadCount room' ''bob'' = Some 0 \<and>
      activeUsers room' ''bob'' = Some True \<and>
      markMessagesAsRead_presence False s' ''g1'' ''bob'' = Inr s'"
    by (intro exI [of _ s2] exI [of _ room2]) (simp only: simp_thms)
  from h1 h2 A B show ?thesis by (intro conjI)
qed

text \<open>
  Claim C2 as stated fails in the first listing: carol has no entry in the message, the
  query \<open>readBy.carol == false\<close> does not return it, and after the successful call the
  message is what it was, without an entry for carol.
\<close>

theorem markMessagesAsRead_missing_entry_counterexample:
  "getDoc (chatRooms groupDb) ''g1'' \<noteq> None \<and>
   messages groupDb ''g1'' = [(''m0'', earlierMessage)] \<and>
   m_readBy earlierMessage ''carol'' = None \<and>
   \<not> isl (markMessagesAsRead groupDb ''g1'' ''carol'') \<and>
   messages (projr (markMessagesAsRead groupDb ''g1'' ''carol'')) ''g1'' = [(''m0'', earlierMessage)]"
  by (simp add: markMessagesAsRead_def groupDb_def groupRoom_def earlierMessage_def getDoc_def Let_def)

section \<open>Direct chats\<close>

lemma find_append_None: "find P xs = None \<Longrightarrow> find P (xs @ ys) = find P ys"
  by (induction xs) (auto split: if_splits)

lemma find_filter_single:
  "find P xs = Some e \<Longrightarrow> length (filter P xs) \<le> 1 \<Longrightarrow> filter P xs = [e]"
  by (induction xs) (auto split: if_splits)

lemma privateRoomsOfPair_filter:
  "privateRoomsOfPair s a b =
     filter (\<lambda>(k, data). b \<in> set (participants data))
       (filter (\<lambda>(k, r). rtype r = Private \<and> a \<in> set (participants r)) (chatRooms s))"
  unfolding privateRoomsOfPair_def filter_filter
  by (rule filter_cong) auto

lemma findExistingPrivateChat_None:
  "findExistingPrivateChat s a b = None \<Longrightarrow> privateRoomsOfPair s a b = []"
  by (auto simp: findExistingPrivateChat_def privateRoomsOfPair_def find_None_iff filter_empty_conv)

lemma findExistingPrivateChat_single:
  "findExistingPrivateChat s a b = Some e \<Longrightarrow> length (privateRoomsOfPair s a b) \<le> 1 \<Longrightarrow>
   privateRoomsOfPair s a b = [e]"
  unfolding privateRoomsOfPair_filter findExistingPrivateChat_def Let_def
  by (rule find_filter_single)

lemma findExistingPrivateChat_Some:
  "findExistingPrivateChat s a b = Some (k, r) \<Longrightarrow>
   (k, r) \<in> set (chatRooms s) \<and> rtype r = Private \<and> a \<in> set (participants r) \<and> b \<in> set (participants r)"
  by (auto simp: findExistingPrivateChat_def find_Some_iff dest!: nth_mem)

lemma findExistingPrivateChat_created:
  assumes "findExistingPrivateChat s a b = None"
    and "rtype room = Private" and "a \<in> set (participants room)" and "b \<in> set (participants room)"
  shows "findExistingPrivateChat (s\<lparr>chatRooms := addDoc newId room (chatRooms s)\<rparr>) a b = Some (newId, room)"
  using assms by (simp add: findExistingPrivateChat_def addDoc_def find_append_None)

text \<open>
  Claim C3. Two calls of \<open>createPrivateChat(A, B)\<close> in sequence return the same room (so
  the same id) and the second call leaves the store as the first one left it. The room
  returned is in the store, is of type private, has \<open>A\<close> and \<open>B\<close> among its participants and
  is the one \<open>findExistingPrivateChat\<close> finds afterwards. When the store had a room that
  \<open>findExistingPrivateChat\<close> finds, that room is returned and the first call creates nothing
  either; when it had none, the first call adds one room, under the new id and with the
  participants \<open>[A, B]\<close>. A store that holds at most one private room for the pair \<open>{A, B}\<close>
  before the calls holds exactly one afterwards, the room returned.
\<close>

theorem createPrivateChat_twice:
  "\<exists>r1 s1.
     createPrivateChat s id1 t1 A B = (r1, s1) \<and>
     createPrivateChat s1 id2 t2 A B = (r1, s1) \<and>
     r1 \<in> set (chatRooms s1) \<and> rtype (snd r1) = Private \<and>
     A \<in> set (participants (snd r1)) \<and> B \<in> set (participants (snd r1)) \<and>
     findExistingPrivateChat s1 A B = Some r1 \<and>
     (\<forall>e. findExistingPrivateChat s A B = Some e \<longrightarrow> r1 = e \<and> s1 = s) \<and>
     (findExistingPrivateChat s A B = None \<longrightarrow>
        fst r1 = id1 \<and> participants (snd r1) = [A, B] \<and>
        chatRooms s1 = chatRooms s @ [r1]) \<and>
     (length (privateRoomsOfPair s A B) \<le> 1 \<longrightarrow> privateRoomsOfPair s1 A B = [r1])"
proof (cases "findExistingPrivateChat s A B")
  case (Some e)
  obtain k r where e: "e = (k, r)" by (cases e)
  from Some have 1: "createPrivateChat s id1 t1 A B = (e, s)"
    and 2: "createPrivateChat s id2 t2 A B = (e, s)"
    by (simp_all add: createPrivateChat_def)
  from findExistingPrivateChat_Some [OF Some [unfolded e]] e
  have 3: "e \<in> set (chatRooms s)" "rtype (snd e) = Private"
    "A \<in> set (participants (snd e))" "B \<in> set (participants (snd e))"
    by simp_all
  have 4: "length (privateRoomsOfPair s A B) \<le> 1 \<longrightarrow> privateRoomsOfPair s A B = [e]"
    using findExistingPrivateChat_single [OF Some] by (rule impI)
  from 1 2 3 4 Some show ?thesis
    by (rule_tac x = e in exI, rule_tac x = s in exI) simp
next
  case None
  define room where "room =
    \<lparr>rtype = Private, rname = None, participants = [A, B],
     lastMessage = Some \<lparr>lm_text = Some ''Chat created'', lm_timestamp = Some t1,
                         lm_senderId = Some A, lm_readBy = [A \<mapsto> True, B \<mapsto> False]\<rparr>,
     createdAt = t1, groupAdmin = None, unreadCount = [A \<mapsto> 0, B \<mapsto> 1],
     unreadCountNested = Map.empty,
     activeUsers = Map.empty, displayNames = Map.empty\<rparr>"
  define s1 where "s1 = s\<lparr>chatRooms := addDoc id1 room (chatRooms s)\<rparr>"
  from None have 1: "createPrivateChat s id1 t1 A B = ((id1, room), s1)"
    by (simp add: createPrivateChat_def room_def s1_def Let_def)
  have f: "findExistingPrivateChat s1 A B = Some (id1, room)"
    unfolding s1_def by (rule findExistingPrivateChat_created [OF None]) (simp_all add: room_def)
  then have 2: "createPrivateChat s1 id2 t2 A B = ((id1, room), s1)"
    by (simp add: createPrivateChat_def)
  have 3: "chatRooms s1 = chatRooms s @ [(id1, room)]"
    by (simp add: s1_def addDoc_def)
  have 4: "rtype room = Private" "participants room = [A, B]"
    by (simp_all add: room_def)
  from findExistingPrivateChat_None [OF None]
  have 5: "privateRoomsOfPair s1 A B = [(id1, room)]"
    by (simp add: privateRoomsOfPair_def s1_def addDoc_def room_def)
  from 1 2 3 4 5 f None show ?thesis
    by (rule_tac x = "(id1, room)" in exI, rule_tac x = s1 in exI) simp
qed

text \<open>
  The theorem on the empty store, where the first call creates \<open>r1\<close> and the second finds
  it, and on the example store, where alice and bob have a room and both calls return it.
\<close>

theorem createPrivateChat_twice_witness:
  "length (privateRoomsOfPair emptyDb ''alice'' ''bob'') \<le> 1 \<and>
   (\<exists>r1 s1.
      createPrivateChat emptyDb ''r1'' 1 ''alice'' ''bob'' = (r1, s1) \<and>
      createPrivateChat s1 ''r2'' 2 ''alice'' ''bob'' = (r1, s1) \<and>
      fst r1 = ''r1'' \<and> participants (snd r1) = [''alice'', ''bob''] \<and>
      chatRooms s1 = [r1] \<and> privateRoomsOfPair s1 ''alice'' ''bob'' = [r1]) \<and>
   length (privateRoomsOfPair exampleDb ''alice'' ''bob'') \<le> 1 \<and>
   createPrivateChat exampleDb ''r2'' 2 ''alice'' ''bob'' = ((''r1'', exampleRoom), exampleDb) \<and>
   createPrivateChat exampleDb ''r3'' 3 ''alice'' ''bob'' = ((''r1'', exampleRoom), exampleDb) \<and>
   privateRoomsOfPair exampleDb ''alice'' ''bob'' = [(''r1'', exampleRoom)]"
proof -
  have h: "length (privateRoomsOfPair emptyDb ''alice'' ''bob'') \<le> 1"
    by (simp add: privateRoomsOfPair_def emptyDb_def)
  have n: "findExistingPrivateChat emptyDb ''alice'' ''bob'' = None"
    by (simp add: findExistingPrivateChat_def emptyDb_def)
  have c: "chatRooms emptyDb = []" by (simp add: emptyDb_def)
  from createPrivateChat_twice [of emptyDb "''r1''" 1 "''alice''" "''bob''" "''r2''" 2]
  obtain r1 s1 where r:
    "createPrivateChat emptyDb ''r1'' 1 ''alice'' ''bob'' = (r1, s1)"
    "createPrivateChat s1 ''r2'' 2 ''alice'' ''bob'' = (r1, s1)"
    "findExistingPrivateChat emptyDb ''alice'' ''bob'' = None \<longrightarrow>
        fst r1 = ''r1'' \<and> participants (snd r1) = [''alice'', ''bob''] \<and>
        chatRooms s1 = chatRooms emptyDb @ [r1]"
    "length (privateRoomsOfPair emptyDb ''alice'' ''bob'') \<le> 1 \<longrightarrow>
        privateRoomsOfPair s1 ''alice'' ''bob'' = [r1]"
    by (elim exE conjE) (rule that)
  from r(3) n c have r3: "fst r1 = ''r1''" "participants (snd r1) = [''alice'', ''bob'']"
    "chatRooms s1 = [r1]"
    by simp_all
  from r(4) h have r4: "privateRoomsOfPair s1 ''alice'' ''bob'' = [r1]" by simp
  from r(1,2) r3 r4 have A: "\<exists>r1 s1.
      createPrivateChat emptyDb ''r1'' 1 ''alice'' ''bob'' = (r1, s1) \<and>
      createPrivateChat s1 ''r2'' 2 ''alice'' ''bob'' = (r1, s1) \<and>
      fst r1 = ''r1'' \<and> participants (snd r1) = [''alice'', ''bob''] \<and>
      chatRooms s1 = [r1] \<and> privateRoomsOfPair s1 ''alice'' ''bob'' = [r1]"
    by (rule_tac x = r1 in exI, rule_tac x = s1 in exI) simp
  have h': "length (privateRoomsOfPair exampleDb ''alice'' ''bob'') \<le> 1"
    by (simp add: privateRoomsOfPair_def exampleDb_def exampleRoom_def)
  have f: "findExistingPrivateChat exampleDb ''alice'' ''bob'' = Some (''r1'', exampleRoom)"
    by (simp add: findExistingPrivateChat_def exampleDb_def exampleRoom_def)
  from createPrivateChat_twice [of exampleDb "''r2''" 2 "''alice''" "''bob''" "''r3''" 3]
  obtain r2 s2 where q:
    "createPrivateChat exampleDb ''r2'' 2 ''alice'' ''bob'' = (r2, s2)"
    "createPrivateChat s2 ''r3'' 3 ''alice'' ''bob'' = (r2, s2)"
    "\<forall>e. findExistingPrivateChat exampleDb ''alice'' ''bob'' = Some e \<longrightarrow> r2 = e \<and> s2 = exampleDb"
    "length (privateRoomsOfPair exampleDb ''alice'' ''bob'') \<le> 1 \<longrightarrow>
        privateRoomsOfPair s2 ''alice'' ''bob'' = [r2]"
    by (elim exE conjE) (rule that)
  from q(3) f have e: "r2 = (''r1'', exampleRoom)" "s2 = exampleDb" by simp_all
  from q(1,2,4) h' have B:
    "createPrivateChat exampleDb ''r2'' 2 ''alice'' ''bob'' = ((''r1'', exampleRoom), exampleDb)"
    "createPrivateChat exampleDb ''r3'' 3 ''alice'' ''bob'' = ((''r1'', exampleRoom), exampleDb)"
    "privateRoomsOfPair exampleDb ''alice'' ''bob'' = [(''r1'', exampleRoom)]"
    unfolding e by simp_all
  from h A h' B show ?thesis by (intro conjI)
qed

lemma findExistingPrivateChat_exists:
  assumes "(k0, r0) \<in> set (chatRooms s)" and "rtype r0 = Private"
    and "a \<in> set (participants r0)" and "b \<in> set (participants r0)"
  shows "findExistingPrivateChat s a b \<noteq> None"
proof -
  from assms have "(k0, r0) \<in> set (filter (\<lambda>(k, r). rtype r = Private \<and> a \<in> set (participants r))
      (chatRooms s)) \<and> (case (k0, r0) of (k, data) \<Rightarrow> b \<in> set (participants data))"
    by simp
  then show ?thesis
    unfolding findExistingPrivateChat_def Let_def find_None_iff by (intro notI) blast
qed

text \<open>
  Claim C10, as the code has it. Let \<open>A\<close> be a participant of some private room. Then
  \<open>findExistingPrivateChat(A, A)\<close> is not null: it returns a private room of the store that
  contains \<open>A\<close>, and \<open>getOrCreateDirectChat(A, A)\<close> returns that room and creates nothing.
  The room is a chat of \<open>A\<close> with another user provided none of the private rooms of
  \<open>A\<close> is a self-chat.
\<close>

theorem findExistingPrivateChat_self:
  assumes "(k0, r0) \<in> set (chatRooms s)" and "rtype r0 = Private" and "A \<in> set (participants r0)"
  shows "\<exists>k r.
     findExistingPrivateChat s A A = Some (k, r) \<and>
     (k, r) \<in> set (chatRooms s) \<and> rtype r = Private \<and> A \<in> set (participants r) \<and>
     getOrCreateDirectChat s newId now A A = ((k, r), s) \<and>
     ((\<forall>(k', r') \<in> set (chatRooms s).
          rtype r' = Private \<and> A \<in> set (participants r') \<longrightarrow> set (participants r') \<noteq> {A})
       \<longrightarrow> (\<exists>B \<in> set (participants r). B \<noteq> A))"
proof -
  from assms have "findExistingPrivateChat s A A \<noteq> None"
    by (intro findExistingPrivateChat_exists [of k0 r0])
  then obtain k r where f: "findExistingPrivateChat s A A = Some (k, r)" by auto
  note m = findExistingPrivateChat_Some [OF f]
  from f have g: "getOrCreateDirectChat s newId now A A = ((k, r), s)"
    by (simp add: getOrCreateDirectChat_def)
  have "\<exists>B \<in> set (participants r). B \<noteq> A"
    if "\<forall>(k', r') \<in> set (chatRooms s).
          rtype r' = Private \<and> A \<in> set (participants r') \<longrightarrow> set (participants r') \<noteq> {A}"
  proof -
    from m have "(k, r) \<in> set (chatRooms s)" "rtype r = Private \<and> A \<in> set (participants r)"
      by simp_all
    with that have "set (participants r) \<noteq> {A}" by fastforce
    with m show ?thesis by auto
  qed
  with f m g show ?thesis by (intro exI [of _ k] exI [of _ r]) simp
qed

text \<open>The theorem at the example store: alice asks for a chat with herself and gets her
  chat with bob.\<close>

theorem findExistingPrivateChat_self_witness:
  "(''r1'', exampleRoom) \<in> set (chatRooms exampleDb) \<and> rtype exampleRoom = Private \<and>
   ''alice'' \<in> set (participants exampleRoom) \<and>
   (\<exists>k r.
      findExistingPrivateChat exampleDb ''alice'' ''alice'' = Some (k, r) \<and>
      k = ''r1'' \<and> participants r = [''alice'', ''bob''] \<and>
      getOrCreateDirectChat exampleDb ''r9'' 2 ''alice'' ''alice'' = ((k, r), exampleDb))"
proof -
  have h: "(''r1'', exampleRoom) \<in> set (chatRooms exampleDb)" "rtype exampleRoom = Private"
    "''alice'' \<in> set (participants exampleRoom)"
    by (simp_all add: exampleDb_def exampleRoom_def)
  from findExistingPrivateChat_self [OF h, of "''r9''" 2]
  obtain k r where r:
    "findExistingPrivateChat exampleDb ''alice'' ''alice'' = Some (k, r)"
    "(k, r) \<in> set (chatRooms exampleDb)"
    "getOrCreateDirectChat exampleDb ''r9'' 2 ''alice'' ''alice'' = ((k, r), exampleDb)"
    by blast
  from r(2) have "k = ''r1''" "participants r = [''alice'', ''bob'']"
    by (simp_all add: exampleDb_def exampleRoom_def)
  with r(1,3) have "\<exists>k r.
      findExistingPrivateChat exampleDb ''alice'' ''alice'' = Some (k, r) \<and>
      k = ''r1'' \<and> participants r = [''alice'', ''bob''] \<and>
      getOrCreateDirectChat exampleDb ''r9'' 2 ''alice'' ''alice'' = ((k, r), exampleDb)"
    by (intro exI [of _ k] exI [of _ r]) simp
  with h show ?thesis by (intro conjI)
qed

text \<open>
  Claim C10 as stated fails when the private room found is itself a self-chat: alice
  creates a chat with herself on the empty store, and the next
  \<open>getOrCreateDirectChat(alice, alice)\<close> returns that room, which has no other user.
\<close>

theorem getOrCreateDirectChat_self_chat_counterexample:
  "fst (fst (getOrCreateDirectChat (snd (createPrivateChat emptyDb ''r0'' 1 ''alice'' ''alice''))
              ''r9'' 2 ''alice'' ''alice'')) = ''r0'' \<and>
   rtype (snd (fst (getOrCreateDirectChat (snd (createPrivateChat emptyDb ''r0'' 1 ''alice'' ''alice''))
              ''r9'' 2 ''alice'' ''alice''))) = Private \<and>
   participants (snd (fst (getOrCreateDirectChat
              (snd (createPrivateChat emptyDb ''r0'' 1 ''alice'' ''alice''))
              ''r9'' 2 ''alice'' ''alice''))) = [''alice'', ''alice'']"
  by (simp add: getOrCreateDirectChat_def createPrivateChat_def findExistingPrivateChat_def
      emptyDb_def Let_def addDoc_def)

section \<open>When sending fails\<close>

text \<open>
  Claim C4, as the code has it. The first listing of \<open>sendMessage\<close> fails when the room
  does not exist, and when the store's client library refuses the write: a participant id
  that is not a field name, or a participant other than the sender whose key
  \<open>unreadCount.${id}\<close> is not a field path (an id with one of \<open>~ * / [ ]\<close>, or with an
  empty part between dots). It does not look at the text: in a room whose participant ids
  are plain it succeeds whenever the room exists, and a blank text is sent as it is.
  The presence-aware listing fails when the chat id is empty, the sender id is empty or
  the text is empty after trimming; then when the room does not exist; then when the
  library refuses the write, where the key of every participant, the sender included, is
  parsed. In a room whose participant ids are plain it succeeds in every other case.
  A failed call returns the error only: no batch is committed, so no message is appended
  and the room document is unchanged.
\<close>

theorem sendMessage_failure_conditions:
  "(getDoc (chatRooms s) R = None \<longrightarrow> sendMessage s mid now R S txt = Inl ChatRoomNotFound) \<and>
   (getDoc (chatRooms s) R = Some room \<and>
    (\<not> list_all validFieldName (participants room) \<or>
     (\<exists>p \<in> set (participants room).
        p \<noteq> S \<and> fieldPathFromDotSeparatedString (''unreadCount.'' @ p) = None)) \<longrightarrow>
      sendMessage s mid now R S txt = Inl InvalidArgument) \<and>
   (getDoc (chatRooms s) R = Some room \<and> list_all plainId (participants room) \<longrightarrow>
      (\<exists>s'. sendMessage s mid now R S txt = Inr (mid, s'))) \<and>
   (R = [] \<or> S = [] \<or> trim txt = [] \<longrightarrow>
      sendMessage_presence s mid now R S txt = Inl RequiredFieldsMissing) \<and>
   (R \<noteq> [] \<and> S \<noteq> [] \<and> trim txt \<noteq> [] \<and> getDoc (chatRooms s) R = None \<longrightarrow>
      sendMessage_presence s mid now R S txt = Inl ChatRoomNotFound) \<and>
   (R \<noteq> [] \<and> S \<noteq> [] \<and> trim txt \<noteq> [] \<and> getDoc (chatRooms s) R = Some room \<and>
    (\<not> list_all validFieldName (participants room) \<or>
     (\<exists>p \<in> set (participants room).
        fieldPathFromDotSeparatedString (''unreadCount.'' @ p) = None)) \<longrightarrow>
      sendMessage_presence s mid now R S txt = Inl InvalidArgument) \<and>
   (R \<noteq> [] \<and> S \<noteq> [] \<and> trim txt \<noteq> [] \<and> getDoc (chatRooms s) R = Some room \<and>
    list_all plainId (participants room) \<longrightarrow>
      (\<exists>msg s'. sendMessage_presence s mid now R S txt = Inr ((mid, msg), s')))"
proof (intro conjI impI)
  assume "getDoc (chatRooms s) R = None"
  then show "sendMessage s mid now R S txt = Inl ChatRoomNotFound"
    by (simp add: sendMessage_def)
next
  assume a: "getDoc (chatRooms s) R = Some room \<and>
    (\<not> list_all validFieldName (participants room) \<or>
     (\<exists>p \<in> set (participants room).
        p \<noteq> S \<and> fieldPathFromDotSeparatedString (''unreadCount.'' @ p) = None))"
  show "sendMessage s mid now R S txt = Inl InvalidArgument"
  proof (cases "list_all validFieldName (participants room)")
    case False
    with a show ?thesis by (simp add: sendMessage_def Let_def)
  next
    case True
    with a obtain p where p: "p \<in> set (participants room)" "p \<noteq> S"
      "fieldPathFromDotSeparatedString (''unreadCount.'' @ p) = None"
      by auto
    have "parseUpdateData
        (fold (\<lambda>p u. if p \<noteq> S then assign (''unreadCount.'' @ p) (Increment 1) u else u)
           (participants room) []) = None"
      using p by (rule updateData_refused)
    with a True show ?thesis by (simp add: sendMessage_def Let_def)
  qed
next
  assume a: "getDoc (chatRooms s) R = Some room \<and> list_all plainId (participants room)"
  hence valid: "list_all validFieldName (participants room)"
    by (simp add: list_all_iff plainId_def)
  from a have "\<forall>p \<in> set (participants room). p \<noteq> S \<longrightarrow> plainId p"
    by (simp add: list_all_iff)
  note parse = updateData_parsed [of "participants room" "\<lambda>p. p \<noteq> S" "Increment 1", OF this]
  from a valid parse show "\<exists>s'. sendMessage s mid now R S txt = Inr (mid, s')"
    by (simp add: sendMessage_def Let_def)
next
  assume "R = [] \<or> S = [] \<or> trim txt = []"
  then show "sendMessage_presence s mid now R S txt = Inl RequiredFieldsMissing"
    by (simp add: sendMessage_presence_def)
next
  assume "R \<noteq> [] \<and> S \<noteq> [] \<and> trim txt \<noteq> [] \<and> getDoc (chatRooms s) R = None"
  then show "sendMessage_presence s mid now R S txt = Inl ChatRoomNotFound"
    by (simp add: sendMessage_presence_def)
next
  assume a: "R \<noteq> [] \<and> S \<noteq> [] \<and> trim txt \<noteq> [] \<and> getDoc (chatRooms s) R = Some room \<and>
    (\<not> list_all validFieldName (participants room) \<or>
     (\<exists>p \<in> set (participants room).
        fieldPathFromDotSeparatedString (''unreadCount.'' @ p) = None))"
  show "sendMessage_presence s mid now R S txt = Inl InvalidArgument"
  proof (cases "list_all validFieldName (participants room)")
    case False
    with a show ?thesis by (simp add: sendMessage_presence_def Let_def)
  next
    case True
    with a obtain p where p: "p \<in> set (participants room)"
      "fieldPathFromDotSeparatedString (''unreadCount.'' @ p) = None"
      by auto
    have "parseUpdateData
        (fold (\<lambda>p u. if \<not> (activeUsers room p = Some True \<or> p = S)
                     then assign (''unreadCount.'' @ p) (Increment 1) u
                     else assign (''unreadCount.'' @ p) (SetTo 0) u)
           (participants room) []) = None"
      using p by (rule updateData_refused_both)
    with a True show ?thesis by (simp add: sendMessage_presence_def Let_def)
  qed
next
  assume a: "R \<noteq> [] \<and> S \<noteq> [] \<and> trim txt \<noteq> [] \<and> getDoc (chatRooms s) R = Some room \<and>
    list_all plainId (participants room)"
  hence valid: "list_all validFieldName (participants room)"
    by (simp add: list_all_iff plainId_def)
  from a have "\<forall>p \<in> set (participants room). plainId p"
    by (simp add: list_all_iff)
  note parse = updateData_parsed_both [of "participants room"
      "\<lambda>p. \<not> (activeUsers room p = Some True \<or> p = S)" "Increment 1" "SetTo 0", OF this]
  from a valid parse
  show "\<exists>msg s'. sendMessage_presence s mid now R S txt = Inr ((mid, msg), s')"
    by (simp add: sendMessage_presence_def Let_def)
qed

text \<open>
  The theorem at the example stores: a missing room, a blank text, a plain send, and a
  send to a room one of whose participants has an id with a slash.
\<close>

theorem sendMessage_failure_conditions_witness:
  "sendMessage exampleDb ''m1'' 5 ''r7'' ''alice'' ''hi'' = Inl ChatRoomNotFound \<and>
   sendMessage slashDb ''m1'' 5 ''r6'' ''alice'' ''hi'' = Inl InvalidArgument \<and>
   (\<exists>s'. sendMessage exampleDb ''m1'' 5 ''r1'' ''alice'' ''hi'' = Inr (''m1'', s')) \<and>
   sendMessage_presence exampleDb ''m1'' 5 ''r1'' ''alice'' ''  '' = Inl RequiredFieldsMissing \<and>
   sendMessage_presence exampleDb ''m1'' 5 ''r7'' ''alice'' ''hi'' = Inl ChatRoomNotFound \<and>
   sendMessage_presence slashDb ''m1'' 5 ''r6'' ''alice'' ''hi'' = Inl InvalidArgument \<and>
   (\<exists>msg s'. sendMessage_presence exampleDb ''m1'' 5 ''r1'' ''alice'' ''hi'' = Inr ((''m1'', msg), s'))"
proof -
  have g: "getDoc (chatRooms exampleDb) ''r7'' = None"
    "getDoc (chatRooms exampleDb) ''r1'' = Some exampleRoom"
    "getDoc (chatRooms slashDb) ''r6'' = Some slashRoom"
    by (simp_all add: exampleDb_def slashDb_def getDoc_def)
  have t: "trim ''  '' = []" "trim ''hi'' \<noteq> []"
    by (simp_all add: trim_def isWhiteSpace_def)
  have plain: "list_all plainId (participants exampleRoom)"
    by (simp add: exampleRoom_def plainId_def validFieldName_def reservedPathChar_def)
  have "fieldPathFromDotSeparatedString (''unreadCount.'' @ ''a/b'') = None"
    by (simp add: fieldPathFromDotSeparatedString_def reservedPathChar_def)
  hence bad: "\<exists>p \<in> set (participants slashRoom).
      p \<noteq> ''alice'' \<and> fieldPathFromDotSeparatedString (''unreadCount.'' @ p) = None"
    "\<exists>p \<in> set (participants slashRoom).
      fieldPathFromDotSeparatedString (''unreadCount.'' @ p) = None"
    by (simp_all add: slashRoom_def)
  from sendMessage_failure_conditions [of exampleDb "''r7''" "''m1''" 5 "''alice''" "''hi''"] g t
  have a: "sendMessage exampleDb ''m1'' 5 ''r7'' ''alice'' ''hi'' = Inl ChatRoomNotFound"
    "sendMessage_presence exampleDb ''m1'' 5 ''r7'' ''alice'' ''hi'' = Inl ChatRoomNotFound"
    by simp_all
  from sendMessage_failure_conditions
    [of exampleDb "''r1''" "''m1''" 5 "''alice''" "''hi''" exampleRoom] g t plain
  have b: "\<exists>s'. sendMessage exampleDb ''m1'' 5 ''r1'' ''alice'' ''hi'' = Inr (''m1'', s')"
    "\<exists>msg s'. sendMessage_presence exampleDb ''m1'' 5 ''r1'' ''alice'' ''hi'' = Inr ((''m1'', msg), s')"
    by simp_all
  from sendMessage_failure_conditions [of exampleDb "''r1''" "''m1''" 5 "''alice''" "''  ''"] t
  have c: "sendMessage_presence exampleDb ''m1'' 5 ''r1'' ''alice'' ''  '' = Inl RequiredFieldsMissing"
    by simp
  from sendMessage_failure_conditions
    [of slashDb "''r6''" "''m1''" 5 "''alice''" "''hi''" slashRoom] g t bad
  have d: "sendMessage slashDb ''m1'' 5 ''r6'' ''alice'' ''hi'' = Inl InvalidArgument"
    "sendMessage_presence slashDb ''m1'' 5 ''r6'' ''alice'' ''hi'' = Inl InvalidArgument"
    by simp_all
  from a b c d show ?thesis by (intro conjI)
qed

text \<open>
  Claim C4 as stated fails in both listings: in the first a blank text is sent to an
  existing room, in the second a send with an empty sender id fails although the room
  exists and the text is not empty. The participant ids of the room are plain.
\<close>

theorem sendMessage_validation_counterexample:
  "getDoc (chatRooms exampleDb) ''r1'' \<noteq> None \<and>
   trim ''  '' = [] \<and> \<not> isl (sendMessage exampleDb ''m1'' 5 ''r1'' ''alice'' ''  '') \<and>
   trim ''hi'' \<noteq> [] \<and> isl (sendMessage_presence exampleDb ''m1'' 5 ''r1'' [] ''hi'')"
proof -
  have g: "getDoc (chatRooms exampleDb) ''r1'' = Some exampleRoom"
    by (simp add: exampleDb_def getDoc_def)
  have m: "''m1'' \<notin> fst ` set (messages exampleDb ''r1'')"
    by (simp add: exampleDb_def)
  have plain: "list_all plainId (participants exampleRoom)"
    by (simp add: exampleRoom_def plainId_def validFieldName_def reservedPathChar_def)
  have t: "trim ''  '' = []" "trim ''hi'' \<noteq> []"
    by (simp_all add: trim_def isWhiteSpace_def)
  from sendMessage_effect [OF g m plain, of 5 "''alice''" "''  ''"]
  have "\<not> isl (sendMessage exampleDb ''m1'' 5 ''r1'' ''alice'' ''  '')" by auto
  moreover have "isl (sendMessage_presence exampleDb ''m1'' 5 ''r1'' [] ''hi'')"
    by (simp add: sendMessage_presence_def)
  ultimately show ?thesis using g t by simp
qed

section \<open>Group membership\<close>

text \<open>
  The guard of \<open>removeParticipant\<close> compares a boolean with a string: it holds for no
  value of \<open>room.type\<close>.
\<close>

lemma removeParticipant_guard: "\<not> strictEquals (logicalNot v) (JSString g)"
  by (simp add: logicalNot_def)

text \<open>
  Claim C7. For every room that exists, of either type, \<open>removeParticipant\<close> does not
  raise the non-group error in either listing. In the first listing it succeeds, and the
  room's participants afterwards are the former ones without \<open>participantId\<close>; the type of
  the room is unchanged. In the second listing the call fails with a \<open>ReferenceError\<close>
  and removes nobody.
\<close>

theorem removeParticipant_any_type:
  assumes "getDoc (chatRooms s) R = Some room"
  shows "removeParticipant s R p \<noteq> Inl NonGroupChat \<and>
    (\<exists>s' room'.
       removeParticipant s R p = Inr s' \<and>
       getDoc (chatRooms s') R = Some room' \<and>
       participants room' = removeAll p (participants room) \<and>
       p \<notin> set (participants room') \<and>
       rtype room' = rtype room) \<and>
    removeParticipant_presence s R p \<noteq> Inl NonGroupChat \<and>
    removeParticipant_presence s R p = Inl ReferenceError"
proof -
  define s' where "s' = s\<lparr>chatRooms := updateDoc R
      (\<lambda>r. r\<lparr>participants := arrayRemove p (participants r)\<rparr>) (chatRooms s)\<rparr>"
  define room' where "room' = room\<lparr>participants := arrayRemove p (participants room)\<rparr>"
  from assms have 1: "removeParticipant s R p = Inr s'"
    by (simp add: removeParticipant_def removeParticipant_guard s'_def)
  from assms have 2: "getDoc (chatRooms s') R = Some room'"
    by (simp add: s'_def room'_def getDoc_updateDoc)
  have 3: "participants room' = removeAll p (participants room)"
    "p \<notin> set (participants room')" "rtype room' = rtype room"
    by (simp_all add: room'_def arrayRemove_def)
  from assms have 4: "removeParticipant_presence s R p = Inl ReferenceError"
    by (simp add: removeParticipant_presence_def removeParticipant_guard)
  hence 5: "removeParticipant_presence s R p \<noteq> Inl NonGroupChat" by simp
  from 1 have 6: "removeParticipant s R p \<noteq> Inl NonGroupChat" by simp
  from 1 2 3 have 7: "\<exists>s' room'.
       removeParticipant s R p = Inr s' \<and>
       getDoc (chatRooms s') R = Some room' \<and>
       participants room' = removeAll p (participants room) \<and>
       p \<notin> set (participants room') \<and>
       rtype room' = rtype room"
    by (intro exI [of _ s'] exI [of _ room'] conjI)
  from 6 7 5 4 show ?thesis by (intro conjI)
qed

text \<open>
  The theorem at the private example room: the first listing removes bob from his chat
  with alice, the second fails and leaves him there.
\<close>

theorem removeParticipant_any_type_witness:
  "getDoc (chatRooms exampleDb) ''r1'' = Some exampleRoom \<and> rtype exampleRoom = Private \<and>
   removeParticipant exampleDb ''r1'' ''bob'' \<noteq> Inl NonGroupChat \<and>
   (\<exists>s' room'.
       removeParticipant exampleDb ''r1'' ''bob'' = Inr s' \<and>
       getDoc (chatRooms s') ''r1'' = Some room' \<and>
       participants room' = [''alice''] \<and> rtype room' = Private) \<and>
   removeParticipant_presence exampleDb ''r1'' ''bob'' = Inl ReferenceError \<and>
   ''bob'' \<in> set (participants exampleRoom)"
proof -
  have h: "getDoc (chatRooms exampleDb) ''r1'' = Some exampleRoom"
    by (simp add: exampleDb_def getDoc_def)
  have p: "rtype exampleRoom = Private" "removeAll ''bob'' (participants exampleRoom) = [''alice'']"
    "''bob'' \<in> set (participants exampleRoom)"
    by (simp_all add: exampleRoom_def)
  from removeParticipant_any_type [OF h, of "''bob''"]
  obtain s' room' where r: "removeParticipant exampleDb ''r1'' ''bob'' \<noteq> Inl NonGroupChat"
    "removeParticipant exampleDb ''r1'' ''bob'' = Inr s'"
    "getDoc (chatRooms s') ''r1'' = Some room'"
    "participants room' = removeAll ''bob'' (participants exampleRoom)"
    "''bob'' \<notin> set (participants room')"
    "rtype room' = rtype exampleRoom"
    "removeParticipant_presence exampleDb ''r1'' ''bob'' \<noteq> Inl NonGroupChat"
    "removeParticipant_presence exampleDb ''r1'' ''bob'' = Inl ReferenceError"
    by (elim exE conjE) (rule that)
  from r(2-6) p have "\<exists>s' room'.
       removeParticipant exampleDb ''r1'' ''bob'' = Inr s' \<and>
       getDoc (chatRooms s') ''r1'' = Some room' \<and>
       participants room' = [''alice''] \<and> rtype room' = Private"
    by (intro exI [of _ s'] exI [of _ room']) simp
  with h p(1,3) r(1,8) show ?thesis by (intro conjI)
qed

text \<open>
  Claim C8. \<open>addUserToGroup\<close> fails with "Chat room not found" when the room does not
  exist, otherwise with "Only group admin can add members" when the acting user is not
  the stored \<open>groupAdmin\<close>, otherwise with "User is already in the group" when the user is
  a participant; otherwise it succeeds, the user is appended to the participants and
  nothing else in the store changes.
\<close>

theorem addUserToGroup_checks:
  "(getDoc (chatRooms s) R = None \<longrightarrow> addUserToGroup s R a u = Inl ChatRoomNotFound) \<and>
   (\<forall>room. getDoc (chatRooms s) R = Some room \<and> groupAdmin room \<noteq> Some a \<longrightarrow>
      addUserToGroup s R a u = Inl OnlyGroupAdmin) \<and>
   (\<forall>room. getDoc (chatRooms s) R = Some room \<and> groupAdmin room = Some a \<and>
      u \<in> set (participants room) \<longrightarrow>
      addUserToGroup s R a u = Inl AlreadyInGroup) \<and>
   (\<forall>room. getDoc (chatRooms s) R = Some room \<and> groupAdmin room = Some a \<and>
      u \<notin> set (participants room) \<longrightarrow>
      (\<exists>s'. addUserToGroup s R a u = Inr s' \<and>
         getDoc (chatRooms s') R = Some (room\<lparr>participants := participants room @ [u]\<rparr>) \<and>
         (\<forall>R'. R' \<noteq> R \<longrightarrow> getDoc (chatRooms s') R' = getDoc (chatRooms s) R') \<and>
         map fst (chatRooms s') = map fst (chatRooms s) \<and>
         messages s' = messages s \<and> users s' = users s))"
proof (intro conjI allI impI)
  assume "getDoc (chatRooms s) R = None"
  then show "addUserToGroup s R a u = Inl ChatRoomNotFound"
    by (simp add: addUserToGroup_def)
next
  fix room
  assume "getDoc (chatRooms s) R = Some room \<and> groupAdmin room \<noteq> Some a"
  then show "addUserToGroup s R a u = Inl OnlyGroupAdmin"
    by (simp add: addUserToGroup_def)
next
  fix room
  assume "getDoc (chatRooms s) R = Some room \<and> groupAdmin room = Some a \<and>
      u \<in> set (participants room)"
  then show "addUserToGroup s R a u = Inl AlreadyInGroup"
    by (simp add: addUserToGroup_def)
next
  fix room
  assume h: "getDoc (chatRooms s) R = Some room \<and> groupAdmin room = Some a \<and>
      u \<notin> set (participants room)"
  define s' where "s' = s\<lparr>chatRooms := updateDoc R
      (\<lambda>r. r\<lparr>participants := arrayUnion u (participants r)\<rparr>) (chatRooms s)\<rparr>"
  from h have 1: "addUserToGroup s R a u = Inr s'"
    by (simp add: addUserToGroup_def s'_def)
  from h have 2: "getDoc (chatRooms s') R = Some (room\<lparr>participants := participants room @ [u]\<rparr>)"
    by (simp add: s'_def getDoc_updateDoc arrayUnion_def)
  have 3: "\<forall>R'. R' \<noteq> R \<longrightarrow> getDoc (chatRooms s') R' = getDoc (chatRooms s) R'"
    by (simp add: s'_def getDoc_updateDoc)
  have 4: "map fst (chatRooms s') = map fst (chatRooms s)" "messages s' = messages s"
    "users s' = users s"
    by (simp_all add: s'_def updateDoc_keys)
  from 1 2 3 4 show "\<exists>s'. addUserToGroup s R a u = Inr s' \<and>
         getDoc (chatRooms s') R = Some (room\<lparr>participants := participants room @ [u]\<rparr>) \<and>
         (\<forall>R'. R' \<noteq> R \<longrightarrow> getDoc (chatRooms s') R' = getDoc (chatRooms s) R') \<and>
         map fst (chatRooms s') = map fst (chatRooms s) \<and>
         messages s' = messages s \<and> users s' = users s"
    by (intro exI [of _ s'] conjI)
qed

text \<open>
  The theorem at the example group, whose admin is alice: a missing room, bob acting as
  admin, alice adding bob again, and alice adding dave.
\<close>

theorem addUserToGroup_checks_witness:
  "addUserToGroup groupDb ''g7'' ''alice'' ''dave'' = Inl ChatRoomNotFound \<and>
   addUserToGroup groupDb ''g1'' ''bob'' ''dave'' = Inl OnlyGroupAdmin \<and>
   addUserToGroup groupDb ''g1'' ''alice'' ''bob'' = Inl AlreadyInGroup \<and>
   (\<exists>s'. addUserToGroup groupDb ''g1'' ''alice'' ''dave'' = Inr s' \<and>
      map_option participants (getDoc (chatRooms s') ''g1'') =
        Some [''alice'', ''bob'', ''carol'', ''dave''])"
proof -
  have g: "getDoc (chatRooms groupDb) ''g7'' = None" "getDoc (chatRooms groupDb) ''g1'' = Some groupRoom"
    by (simp_all add: groupDb_def getDoc_def)
  have r: "groupAdmin groupRoom = Some ''alice''" "groupAdmin groupRoom \<noteq> Some ''bob''"
    "participants groupRoom = [''alice'', ''bob'', ''carol'']"
    by (simp_all add: groupRoom_def)
  from addUserToGroup_checks [of groupDb "''g7''" "''alice''" "''dave''"] g(1)
  have a: "addUserToGroup groupDb ''g7'' ''alice'' ''dave'' = Inl ChatRoomNotFound" by simp
  from addUserToGroup_checks [of groupDb "''g1''" "''bob''" "''dave''"] g(2) r(2)
  have b: "addUserToGroup groupDb ''g1'' ''bob'' ''dave'' = Inl OnlyGroupAdmin" by simp
  from addUserToGroup_checks [of groupDb "''g1''" "''alice''" "''bob''"] g(2) r(1,3)
  have c: "addUserToGroup groupDb ''g1'' ''alice'' ''bob'' = Inl AlreadyInGroup" by simp
  from addUserToGroup_checks [of groupDb "''g1''" "''alice''" "''dave''"] g(2) r(1,3)
  have d: "\<exists>s'. addUserToGroup groupDb ''g1'' ''alice'' ''dave'' = Inr s' \<and>
      map_option participants (getDoc (chatRooms s') ''g1'') =
        Some [''alice'', ''bob'', ''carol'', ''dave'']"
    by auto
  from a b c d show ?thesis by (intro conjI)
qed

section \<open>Friend requests\<close>

lemma sendFriendRequest_result:
  assumes "getDoc (users s) A = Some sd" and "getDoc (users s) B = Some rd"
    and "B \<notin> set (orEmpty (friends sd))" and "A \<notin> set (orEmpty (friends rd))"
    and "B \<notin> set (orEmpty (fr_sent sd))" and "A \<notin> set (orEmpty (fr_received rd))"
  shows "sendFriendRequest s A B =
     Inr (s\<lparr>users := updateDoc B (\<lambda>d. d\<lparr>fr_received := Some (arrayUnion A (orEmpty (fr_received d)))\<rparr>)
                       (updateDoc A (\<lambda>d. d\<lparr>fr_sent := Some (arrayUnion B (orEmpty (fr_sent d)))\<rparr>)
                          (users s))\<rparr>)"
  using assms by (simp add: sendFriendRequest_def Let_def)

text \<open>
  Claim C5, as the code has it. For two profiles that exist, \<open>sendFriendRequest\<close> fails
  with "Already friends" when either profile's \<open>friends\<close> contains the other; otherwise
  with "Friend request already sent" when the request from sender to receiver is
  recorded on either side (the receiver is in the sender's \<open>sent\<close> list or the sender is in
  the receiver's \<open>received\<close> list); otherwise it succeeds and adds the receiver to the
  sender's \<open>sent\<close> and the sender to the receiver's \<open>received\<close>. A pending request in the
  other direction is not looked at.
\<close>

theorem sendFriendRequest_checks:
  assumes "getDoc (users s) A = Some sd" and "getDoc (users s) B = Some rd"
  shows "(B \<in> set (orEmpty (friends sd)) \<or> A \<in> set (orEmpty (friends rd)) \<longrightarrow>
           sendFriendRequest s A B = Inl AlreadyFriends) \<and>
         (B \<notin> set (orEmpty (friends sd)) \<and> A \<notin> set (orEmpty (friends rd)) \<and>
          (B \<in> set (orEmpty (fr_sent sd)) \<or> A \<in> set (orEmpty (fr_received rd))) \<longrightarrow>
           sendFriendRequest s A B = Inl FriendRequestAlreadySent) \<and>
         (B \<notin> set (orEmpty (friends sd)) \<and> A \<notin> set (orEmpty (friends rd)) \<and>
          B \<notin> set (orEmpty (fr_sent sd)) \<and> A \<notin> set (orEmpty (fr_received rd)) \<longrightarrow>
           (\<exists>s' sd' rd'.
              sendFriendRequest s A B = Inr s' \<and>
              getDoc (users s') A = Some sd' \<and> getDoc (users s') B = Some rd' \<and>
              set (orEmpty (fr_sent sd')) = insert B (set (orEmpty (fr_sent sd))) \<and>
              set (orEmpty (fr_received rd')) = insert A (set (orEmpty (fr_received rd))) \<and>
              friends sd' = friends sd \<and> friends rd' = friends rd \<and>
              (\<forall>C. C \<noteq> A \<and> C \<noteq> B \<longrightarrow> getDoc (users s') C = getDoc (users s) C)))"
proof (intro conjI impI)
  assume "B \<in> set (orEmpty (friends sd)) \<or> A \<in> set (orEmpty (friends rd))"
  with assms show "sendFriendRequest s A B = Inl AlreadyFriends"
    by (simp add: sendFriendRequest_def Let_def)
next
  assume "B \<notin> set (orEmpty (friends sd)) \<and> A \<notin> set (orEmpty (friends rd)) \<and>
          (B \<in> set (orEmpty (fr_sent sd)) \<or> A \<in> set (orEmpty (fr_received rd)))"
  with assms show "sendFriendRequest s A B = Inl FriendRequestAlreadySent"
    by (simp add: sendFriendRequest_def Let_def)
next
  assume h: "B \<notin> set (orEmpty (friends sd)) \<and> A \<notin> set (orEmpty (friends rd)) \<and>
          B \<notin> set (orEmpty (fr_sent sd)) \<and> A \<notin> set (orEmpty (fr_received rd))"
  then have r: "sendFriendRequest s A B =
     Inr (s\<lparr>users := updateDoc B (\<lambda>d. d\<lparr>fr_received := Some (arrayUnion A (orEmpty (fr_received d)))\<rparr>)
                       (updateDoc A (\<lambda>d. d\<lparr>fr_sent := Some (arrayUnion B (orEmpty (fr_sent d)))\<rparr>)
                          (users s))\<rparr>)"
    by (intro sendFriendRequest_result [OF assms]) simp_all
  show "\<exists>s' sd' rd'.
              sendFriendRequest s A B = Inr s' \<and>
              getDoc (users s') A = Some sd' \<and> getDoc (users s') B = Some rd' \<and>
              set (orEmpty (fr_sent sd')) = insert B (set (orEmpty (fr_sent sd))) \<and>
              set (orEmpty (fr_received rd')) = insert A (set (orEmpty (fr_received rd))) \<and>
              friends sd' = friends sd \<and> friends rd' = friends rd \<and>
              (\<forall>C. C \<noteq> A \<and> C \<noteq> B \<longrightarrow> getDoc (users s') C = getDoc (users s) C)"
    unfolding r using assms h
    by (cases "A = B") (auto simp: getDoc_updateDoc arrayUnion_def orEmpty_def)
qed

text \<open>
  The theorem at the example profiles: alice to her friend carol, bob to alice a second
  time, and dave to bob.
\<close>

theorem sendFriendRequest_checks_witness:
  "sendFriendRequest socialDb ''alice'' ''carol'' = Inl AlreadyFriends \<and>
   sendFriendRequest socialDb ''bob'' ''alice'' = Inl FriendRequestAlreadySent \<and>
   (\<exists>s' sd' rd'.
      sendFriendRequest socialDb ''dave'' ''bob'' = Inr s' \<and>
      getDoc (users s') ''dave'' = Some sd' \<and> getDoc (users s') ''bob'' = Some rd' \<and>
      set (orEmpty (fr_sent sd')) = {''bob''} \<and> set (orEmpty (fr_received rd')) = {''dave''})"
proof -
  have u: "getDoc (users socialDb) ''alice'' =
             Some (blankProfile\<lparr>friends := Some [''carol''], fr_received := Some [''bob'']\<rparr>)"
    "getDoc (users socialDb) ''bob'' = Some (blankProfile\<lparr>fr_sent := Some [''alice'']\<rparr>)"
    "getDoc (users socialDb) ''carol'' = Some (blankProfile\<lparr>friends := Some [''alice'']\<rparr>)"
    "getDoc (users socialDb) ''dave'' = Some blankProfile"
    by (simp_all add: socialDb_def getDoc_def)
  have ha: "''carol'' \<in> set (orEmpty (friends (blankProfile\<lparr>friends := Some [''carol''],
      fr_received := Some [''bob'']\<rparr>)))"
    by (simp add: orEmpty_def)
  from sendFriendRequest_checks [OF u(1) u(3), THEN conjunct1] ha
  have a: "sendFriendRequest socialDb ''alice'' ''carol'' = Inl AlreadyFriends"
    by (simp only: simp_thms)
  have hb: "''alice'' \<notin> set (orEmpty (friends (blankProfile\<lparr>fr_sent := Some [''alice'']\<rparr>)))"
    "''bob'' \<notin> set (orEmpty (friends (blankProfile\<lparr>friends := Some [''carol''],
      fr_received := Some [''bob'']\<rparr>)))"
    "''alice'' \<in> set (orEmpty (fr_sent (blankProfile\<lparr>fr_sent := Some [''alice'']\<rparr>)))"
    by (simp_all add: orEmpty_def blankProfile_def)
  from sendFriendRequest_checks [OF u(2) u(1), THEN conjunct2, THEN conjunct1] hb
  have b: "sendFriendRequest socialDb ''bob'' ''alice'' = Inl FriendRequestAlreadySent"
    by (simp only: simp_thms)
  have hc: "''bob'' \<notin> set (orEmpty (friends blankProfile))"
    "''dave'' \<notin> set (orEmpty (friends (blankProfile\<lparr>fr_sent := Some [''alice'']\<rparr>)))"
    "''bob'' \<notin> set (orEmpty (fr_sent blankProfile))"
    "''dave'' \<notin> set (orEmpty (fr_received (blankProfile\<lparr>fr_sent := Some [''alice'']\<rparr>)))"
    by (simp_all add: orEmpty_def blankProfile_def)
  from hc have hc': "''bob'' \<notin> set (orEmpty (friends blankProfile)) \<and>
    ''dave'' \<notin> set (orEmpty (friends (blankProfile\<lparr>fr_sent := Some [''alice'']\<rparr>))) \<and>
    ''bob'' \<notin> set (orEmpty (fr_sent blankProfile)) \<and>
    ''dave'' \<notin> set (orEmpty (fr_received (blankProfile\<lparr>fr_sent := Some [''alice'']\<rparr>)))"
    by (intro conjI)
  from sendFriendRequest_checks [OF u(4) u(2), THEN conjunct2, THEN conjunct2, THEN mp, OF hc']
  obtain s' sd' rd' where r:
    "sendFriendRequest socialDb ''dave'' ''bob'' = Inr s'"
    "getDoc (users s') ''dave'' = Some sd'" "getDoc (users s') ''bob'' = Some rd'"
    "set (orEmpty (fr_sent sd')) = insert ''bob'' (set (orEmpty (fr_sent blankProfile)))"
    "set (orEmpty (fr_received rd')) =
       insert ''dave'' (set (orEmpty (fr_received (blankProfile\<lparr>fr_sent := Some [''alice'']\<rparr>))))"
    by (elim exE conjE) (rule that)
  from r have c: "\<exists>s' sd' rd'.
      sendFriendRequest socialDb ''dave'' ''bob'' = Inr s' \<and>
      getDoc (users s') ''dave'' = Some sd' \<and> getDoc (users s') ''bob'' = Some rd' \<and>
      set (orEmpty (fr_sent sd')) = {''bob''} \<and> set (orEmpty (fr_received rd')) = {''dave''}"
    by (rule_tac x = s' in exI, rule_tac x = sd' in exI, rule_tac x = rd' in exI)
      (simp add: orEmpty_def blankProfile_def)
  from a b c show ?thesis by (intro conjI)
qed

text \<open>
  Claim C5 as stated fails: bob's request to alice is pending, and alice's request to
  bob succeeds all the same and is written to her \<open>sent\<close> list.
\<close>

theorem sendFriendRequest_reverse_edge_counterexample:
  "getDoc (users socialDb) ''bob'' = Some (blankProfile\<lparr>fr_sent := Some [''alice'']\<rparr>) \<and>
   getDoc (users socialDb) ''alice'' =
     Some (blankProfile\<lparr>friends := Some [''carol''], fr_received := Some [''bob'']\<rparr>) \<and>
   \<not> isl (sendFriendRequest socialDb ''alice'' ''bob'') \<and>
   getDoc (users (projr (sendFriendRequest socialDb ''alice'' ''bob''))) ''alice'' =
     Some (blankProfile\<lparr>friends := Some [''carol''], fr_sent := Some [''bob''],
                         fr_received := Some [''bob'']\<rparr>)"
  by (simp add: sendFriendRequest_def socialDb_def blankProfile_def getDoc_def updateDoc_def
      orEmpty_def arrayUnion_def Let_def)

lemma acceptFriendRequest_result:
  assumes "getDoc (users s) U = Some ud" and "getDoc (users s) F = Some fd"
    and "F \<in> set (orEmpty (fr_received ud))"
  shows "acceptFriendRequest s U F =
     Inr (s\<lparr>users :=
            updateDoc F (\<lambda>d. d\<lparr>fr_sent := Some (filter (\<lambda>i. i \<noteq> U) (orEmpty (fr_sent fd))),
                                 fr_received := Some (orEmpty (fr_received fd)),
                                 friends := Some (orEmpty (friends fd) @ [U])\<rparr>)
              (updateDoc U (\<lambda>d. d\<lparr>fr_sent := Some (orEmpty (fr_sent ud)),
                                   fr_received := Some (filter (\<lambda>i. i \<noteq> F) (orEmpty (fr_received ud))),
                                   friends := Some (orEmpty (friends ud) @ [F])\<rparr>)
                 (users s))\<rparr>)"
  using assms by (simp add: acceptFriendRequest_def Let_def)

text \<open>
  Claim C6, as the code has it. Let \<open>A\<close> and \<open>B\<close> be two different profiles that exist,
  with no edge between them: neither is a friend of the other and no request is pending
  in either direction.
  Then \<open>sendFriendRequest(A, B)\<close> followed by \<open>acceptFriendRequest(B, A)\<close> both succeed;
  afterwards \<open>B\<close> is in \<open>A.friends\<close> and \<open>A\<close> in \<open>B.friends\<close>, the four request lists
  hold what they held before the two calls (so none holds the edge), and each of the
  two profiles satisfies the invariant if it did before.
\<close>

theorem friend_lifecycle:
  assumes ne: "A \<noteq> B"
    and a: "getDoc (users s) A = Some pa" and b: "getDoc (users s) B = Some pb"
    and nf: "B \<notin> set (orEmpty (friends pa))" "A \<notin> set (orEmpty (friends pb))"
    and ns: "B \<notin> set (orEmpty (fr_sent pa))" "A \<notin> set (orEmpty (fr_received pb))"
    and nr: "A \<notin> set (orEmpty (fr_sent pb))" "B \<notin> set (orEmpty (fr_received pa))"
  shows "\<exists>s1 s2 pa' pb'.
     sendFriendRequest s A B = Inr s1 \<and> acceptFriendRequest s1 B A = Inr s2 \<and>
     getDoc (users s2) A = Some pa' \<and> getDoc (users s2) B = Some pb' \<and>
     set (orEmpty (friends pa')) = insert B (set (orEmpty (friends pa))) \<and>
     set (orEmpty (friends pb')) = insert A (set (orEmpty (friends pb))) \<and>
     set (orEmpty (fr_sent pa')) = set (orEmpty (fr_sent pa)) \<and>
     set (orEmpty (fr_received pa')) = set (orEmpty (fr_received pa)) \<and>
     set (orEmpty (fr_sent pb')) = set (orEmpty (fr_sent pb)) \<and>
     set (orEmpty (fr_received pb')) = set (orEmpty (fr_received pb)) \<and>
     B \<notin> set (orEmpty (fr_sent pa')) \<and> B \<notin> set (orEmpty (fr_received pa')) \<and>
     A \<notin> set (orEmpty (fr_sent pb')) \<and> A \<notin> set (orEmpty (fr_received pb')) \<and>
     (noFriendPending pa \<longrightarrow> noFriendPending pa') \<and>
     (noFriendPending pb \<longrightarrow> noFriendPending pb')"
proof -
  define pa1 where "pa1 = pa\<lparr>fr_sent := Some (arrayUnion B (orEmpty (fr_sent pa)))\<rparr>"
  define pb1 where "pb1 = pb\<lparr>fr_received := Some (arrayUnion A (orEmpty (fr_received pb)))\<rparr>"
  define s1 where "s1 = s\<lparr>users :=
      updateDoc B (\<lambda>d. d\<lparr>fr_received := Some (arrayUnion A (orEmpty (fr_received d)))\<rparr>)
        (updateDoc A (\<lambda>d. d\<lparr>fr_sent := Some (arrayUnion B (orEmpty (fr_sent d)))\<rparr>) (users s))\<rparr>"
  have 1: "sendFriendRequest s A B = Inr s1"
    unfolding s1_def by (rule sendFriendRequest_result [OF a b nf ns])
  have a1: "getDoc (users s1) A = Some pa1" and b1: "getDoc (users s1) B = Some pb1"
    using ne a b by (simp_all add: s1_def pa1_def pb1_def getDoc_updateDoc)
  have rc: "A \<in> set (orEmpty (fr_received pb1))"
    by (simp add: pb1_def arrayUnion_def orEmpty_def)
  define pb2 where "pb2 = pb1\<lparr>fr_sent := Some (orEmpty (fr_sent pb1)),
      fr_received := Some (filter (\<lambda>i. i \<noteq> A) (orEmpty (fr_received pb1))),
      friends := Some (orEmpty (friends pb1) @ [A])\<rparr>"
  define pa2 where "pa2 = pa1\<lparr>fr_sent := Some (filter (\<lambda>i. i \<noteq> B) (orEmpty (fr_sent pa1))),
      fr_received := Some (orEmpty (fr_received pa1)),
      friends := Some (orEmpty (friends pa1) @ [B])\<rparr>"
  from acceptFriendRequest_result [OF b1 a1 rc]
  obtain s2 where 2: "acceptFriendRequest s1 B A = Inr s2"
    and s2: "users s2 =
            updateDoc A (\<lambda>d. d\<lparr>fr_sent := Some (filter (\<lambda>i. i \<noteq> B) (orEmpty (fr_sent pa1))),
                                 fr_received := Some (orEmpty (fr_received pa1)),
                                 friends := Some (orEmpty (friends pa1) @ [B])\<rparr>)
              (updateDoc B (\<lambda>d. d\<lparr>fr_sent := Some (orEmpty (fr_sent pb1)),
                                   fr_received := Some (filter (\<lambda>i. i \<noteq> A) (orEmpty (fr_received pb1))),
                                   friends := Some (orEmpty (friends pb1) @ [A])\<rparr>)
                 (users s1))"
    by simp
  have a2: "getDoc (users s2) A = Some pa2" and b2: "getDoc (users s2) B = Some pb2"
    using ne a1 b1 by (simp_all add: s2 pa2_def pb2_def getDoc_updateDoc)
  have fa: "set (orEmpty (friends pa2)) = insert B (set (orEmpty (friends pa)))"
    "set (orEmpty (fr_sent pa2)) = set (orEmpty (fr_sent pa))"
    "set (orEmpty (fr_received pa2)) = set (orEmpty (fr_received pa))"
    using ns(1) by (auto simp: pa2_def pa1_def arrayUnion_def orEmpty_def)
  have fb: "set (orEmpty (friends pb2)) = insert A (set (orEmpty (friends pb)))"
    "set (orEmpty (fr_sent pb2)) = set (orEmpty (fr_sent pb))"
    "set (orEmpty (fr_received pb2)) = set (orEmpty (fr_received pb))"
    using ns(2) by (auto simp: pb2_def pb1_def arrayUnion_def orEmpty_def)
  have ia: "noFriendPending pa \<longrightarrow> noFriendPending pa2"
    using ns(1) nr(2) unfolding noFriendPending_def fa by auto
  have ib: "noFriendPending pb \<longrightarrow> noFriendPending pb2"
    using ns(2) nr(1) unfolding noFriendPending_def fb by auto
  from 1 2 a2 b2 fa fb ia ib ns nr show ?thesis
    by (rule_tac x = s1 in exI, rule_tac x = s2 in exI, rule_tac x = pa2 in exI,
        rule_tac x = pb2 in exI) simp
qed

text \<open>The theorem at the example profiles: dave asks carol, carol accepts.\<close>

theorem friend_lifecycle_witness:
  "''dave'' \<noteq> ''carol'' \<and>
   getDoc (users socialDb) ''dave'' = Some blankProfile \<and>
   getDoc (users socialDb) ''carol'' = Some (blankProfile\<lparr>friends := Some [''alice'']\<rparr>) \<and>
   (\<exists>s1 s2 pa' pb'.
      sendFriendRequest socialDb ''dave'' ''carol'' = Inr s1 \<and>
      acceptFriendRequest s1 ''carol'' ''dave'' = Inr s2 \<and>
      getDoc (users s2) ''dave'' = Some pa' \<and> getDoc (users s2) ''carol'' = Some pb' \<and>
      set (orEmpty (friends pa')) = {''carol''} \<and>
      set (orEmpty (friends pb')) = {''dave'', ''alice''} \<and>
      set (orEmpty (fr_sent pa')) = {} \<and> set (orEmpty (fr_received pa')) = {} \<and>
      set (orEmpty (fr_sent pb')) = {} \<and> set (orEmpty (fr_received pb')) = {} \<and>
      noFriendPending pa' \<and> noFriendPending pb')"
proof -
  have ne: "''dave'' \<noteq> ''carol''" by simp
  have a: "getDoc (users socialDb) ''dave'' = Some blankProfile"
    and b: "getDoc (users socialDb) ''carol'' = Some (blankProfile\<lparr>friends := Some [''alice'']\<rparr>)"
    by (simp_all add: socialDb_def getDoc_def)
  have nf: "''carol'' \<notin> set (orEmpty (friends blankProfile))"
    "''dave'' \<notin> set (orEmpty (friends (blankProfile\<lparr>friends := Some [''alice'']\<rparr>)))"
    and ns: "''carol'' \<notin> set (orEmpty (fr_sent blankProfile))"
    "''dave'' \<notin> set (orEmpty (fr_received (blankProfile\<lparr>friends := Some [''alice'']\<rparr>)))"
    and nr: "''dave'' \<notin> set (orEmpty (fr_sent (blankProfile\<lparr>friends := Some [''alice'']\<rparr>)))"
    "''carol'' \<notin> set (orEmpty (fr_received blankProfile))"
    by (simp_all add: orEmpty_def blankProfile_def)
  have inv: "noFriendPending blankProfile"
    "noFriendPending (blankProfile\<lparr>friends := Some [''alice'']\<rparr>)"
    by (simp_all add: noFriendPending_def orEmpty_def blankProfile_def)
  from friend_lifecycle [OF ne a b nf ns nr]
  obtain s1 s2 pa' pb' where r:
    "sendFriendRequest socialDb ''dave'' ''carol'' = Inr s1"
    "acceptFriendRequest s1 ''carol'' ''dave'' = Inr s2"
    "getDoc (users s2) ''dave'' = Some pa'" "getDoc (users s2) ''carol'' = Some pb'"
    "set (orEmpty (friends pa')) = insert ''carol'' (set (orEmpty (friends blankProfile)))"
    "set (orEmpty (friends pb')) =
       insert ''dave'' (set (orEmpty (friends (blankProfile\<lparr>friends := Some [''alice'']\<rparr>))))"
    "set (orEmpty (fr_sent pa')) = set (orEmpty (fr_sent blankProfile))"
    "set (orEmpty (fr_received pa')) = set (orEmpty (fr_received blankProfile))"
    "set (orEmpty (fr_sent pb')) = set (orEmpty (fr_sent (blankProfile\<lparr>friends := Some [''alice'']\<rparr>)))"
    "set (orEmpty (fr_received pb')) =
       set (orEmpty (fr_received (blankProfile\<lparr>friends := Some [''alice'']\<rparr>)))"
    "noFriendPending blankProfile \<longrightarrow> noFriendPending pa'"
    "noFriendPending (blankProfile\<lparr>friends := Some [''alice'']\<rparr>) \<longrightarrow> noFriendPending pb'"
    by (elim exE conjE) (rule that)
  from r(11,12) inv have i: "noFriendPending pa'" "noFriendPending pb'" by simp_all
  from r(1-10) i have "\<exists>s1 s2 pa' pb'.
      sendFriendRequest socialDb ''dave'' ''carol'' = Inr s1 \<and>
      acceptFriendRequest s1 ''carol'' ''dave'' = Inr s2 \<and>
      getDoc (users s2) ''dave'' = Some pa' \<and> getDoc (users s2) ''carol'' = Some pb' \<and>
      set (orEmpty (friends pa')) = {''carol''} \<and>
      set (orEmpty (friends pb')) = {''dave'', ''alice''} \<and>
      set (orEmpty (fr_sent pa')) = {} \<and> set (orEmpty (fr_received pa')) = {} \<and>
      set (orEmpty (fr_sent pb')) = {} \<and> set (orEmpty (fr_received pb')) = {} \<and>
      noFriendPending pa' \<and> noFriendPending pb'"
    by (rule_tac x = s1 in exI, rule_tac x = s2 in exI, rule_tac x = pa' in exI,
        rule_tac x = pb' in exI) (simp add: orEmpty_def blankProfile_def)
  with ne a b show ?thesis by (intro conjI)
qed

text \<open>
  Claim C6 as stated fails when \<open>A\<close> and \<open>B\<close> are the same profile, which neither
  operation checks. Dave has no friends and no requests. His request to himself succeeds
  and so does his accepting it; the second update of \<open>acceptFriendRequest\<close> writes the
  \<open>received\<close> list as it was read before the first, so dave ends as his own friend with his
  own request still in \<open>received\<close>, and the invariant is broken.
\<close>

theorem friend_lifecycle_self_counterexample:
  "getDoc (users socialDb) ''dave'' = Some blankProfile \<and>
   ''dave'' \<notin> set (orEmpty (friends blankProfile)) \<and>
   ''dave'' \<notin> set (orEmpty (fr_sent blankProfile)) \<and>
   ''dave'' \<notin> set (orEmpty (fr_received blankProfile)) \<and>
   \<not> isl (sendFriendRequest socialDb ''dave'' ''dave'') \<and>
   \<not> isl (acceptFriendRequest (projr (sendFriendRequest socialDb ''dave'' ''dave''))
            ''dave'' ''dave'') \<and>
   getDoc (users (projr (acceptFriendRequest (projr (sendFriendRequest socialDb ''dave'' ''dave''))
                           ''dave'' ''dave''))) ''dave'' =
     Some (blankProfile\<lparr>friends := Some [''dave''], fr_sent := Some [],
                         fr_received := Some [''dave'']\<rparr>) \<and>
   \<not> noFriendPending (blankProfile\<lparr>friends := Some [''dave''], fr_sent := Some [],
                                     fr_received := Some [''dave'']\<rparr>)"
proof -
  have d: "getDoc (users socialDb) ''dave'' = Some blankProfile"
    by (simp add: socialDb_def getDoc_def)
  have n: "''dave'' \<notin> set (orEmpty (friends blankProfile))"
    "''dave'' \<notin> set (orEmpty (fr_sent blankProfile))"
    "''dave'' \<notin> set (orEmpty (fr_received blankProfile))"
    by (simp_all add: orEmpty_def blankProfile_def)
  define s1 where "s1 = socialDb\<lparr>users :=
      updateDoc ''dave'' (\<lambda>d. d\<lparr>fr_received := Some (arrayUnion ''dave'' (orEmpty (fr_received d)))\<rparr>)
        (updateDoc ''dave'' (\<lambda>d. d\<lparr>fr_sent := Some (arrayUnion ''dave'' (orEmpty (fr_sent d)))\<rparr>)
           (users socialDb))\<rparr>"
  have 1: "sendFriendRequest socialDb ''dave'' ''dave'' = Inr s1"
    unfolding s1_def by (rule sendFriendRequest_result [OF d d n(1) n(1) n(2) n(3)])
  have d1: "getDoc (users s1) ''dave'' =
      Some (blankProfile\<lparr>fr_sent := Some [''dave''], fr_received := Some [''dave'']\<rparr>)"
    using d by (simp add: s1_def getDoc_updateDoc arrayUnion_def orEmpty_def blankProfile_def)
  have r: "''dave'' \<in> set (orEmpty (fr_received
      (blankProfile\<lparr>fr_sent := Some [''dave''], fr_received := Some [''dave'']\<rparr>)))"
    by (simp add: orEmpty_def)
  note 2 = acceptFriendRequest_result [OF d1 d1 r]
  have d2: "getDoc (users (projr (acceptFriendRequest s1 ''dave'' ''dave''))) ''dave'' =
      Some (blankProfile\<lparr>friends := Some [''dave''], fr_sent := Some [],
                          fr_received := Some [''dave'']\<rparr>)"
    using d1 unfolding 2 by (simp add: getDoc_updateDoc orEmpty_def blankProfile_def)
  have i: "\<not> noFriendPending (blankProfile\<lparr>friends := Some [''dave''], fr_sent := Some [],
                                     fr_received := Some [''dave'']\<rparr>)"
    by (simp add: noFriendPending_def orEmpty_def)
  from 2 have 3: "\<not> isl (acceptFriendRequest s1 ''dave'' ''dave'')" by simp
  from d n 1 3 d2 i show ?thesis by simp
qed

end
